theory Spec2Isabelle
  imports Complex_Main "HOL-Library.Multiset" "HOL-Library.Log_Nat"
begin

section \<open>The C type double\<close>

text \<open>
  The program of \<^verbatim>\<open>full-train.c\<close> computes on C doubles. They are modelled by the
  type \<open>double\<close>: a finite value is an exact real number, and the three special values
  of IEEE 754 that the program can produce by dividing by zero are kept (\<open>PInf\<close>,
  \<open>MInf\<close>, \<open>NaN\<close>), with the IEEE rules for them: \<open>x / 0\<close> is an infinity for
  \<open>x \<noteq> 0\<close> and \<open>NaN\<close> for \<open>x = 0\<close>, every ordered comparison with \<open>NaN\<close> is
  false, \<open>==\<close> is false on \<open>NaN\<close>. Rounding, overflow of finite values and the sign
  of zero are not modelled: a zero is the positive zero.
\<close>

datatype double = Fin real | PInf | MInf | NaN

instantiation double :: "{plus, minus, uminus, times, inverse, ord, abs}"
begin

fun uminus_double :: "double \<Rightarrow> double" where
  "uminus_double (Fin a) = Fin (- a)"
| "uminus_double PInf = MInf"
| "uminus_double MInf = PInf"
| "uminus_double NaN = NaN"

fun plus_double :: "double \<Rightarrow> double \<Rightarrow> double" where
  "plus_double (Fin a) (Fin b) = Fin (a + b)"
| "plus_double (Fin a) PInf = PInf"
| "plus_double (Fin a) MInf = MInf"
| "plus_double PInf (Fin b) = PInf"
| "plus_double MInf (Fin b) = MInf"
| "plus_double PInf PInf = PInf"
| "plus_double MInf MInf = MInf"
| "plus_double PInf MInf = NaN"
| "plus_double MInf PInf = NaN"
| "plus_double NaN d = NaN"
| "plus_double d NaN = NaN"

definition minus_double :: "double \<Rightarrow> double \<Rightarrow> double" where
  "minus_double a b = a + (- b)"

definition inf_of_sign :: "bool \<Rightarrow> double" where
  "inf_of_sign pos = (if pos then PInf else MInf)"

fun times_double :: "double \<Rightarrow> double \<Rightarrow> double" where
  "times_double (Fin a) (Fin b) = Fin (a * b)"
| "times_double (Fin a) PInf = (if a = 0 then NaN else inf_of_sign (0 < a))"
| "times_double (Fin a) MInf = (if a = 0 then NaN else inf_of_sign (a < 0))"
| "times_double PInf (Fin b) = (if b = 0 then NaN else inf_of_sign (0 < b))"
| "times_double MInf (Fin b) = (if b = 0 then NaN else inf_of_sign (b < 0))"
| "times_double PInf PInf = PInf"
| "times_double MInf MInf = PInf"
| "times_double PInf MInf = MInf"
| "times_double MInf PInf = MInf"
| "times_double NaN d = NaN"
| "times_double d NaN = NaN"

fun divide_double :: "double \<Rightarrow> double \<Rightarrow> double" where
  "divide_double (Fin a) (Fin b) =
     (if b \<noteq> 0 then Fin (a / b) else if a = 0 then NaN else inf_of_sign (0 < a))"
| "divide_double (Fin a) PInf = Fin 0"
| "divide_double (Fin a) MInf = Fin 0"
| "divide_double PInf (Fin b) = inf_of_sign (0 \<le> b)"
| "divide_double MInf (Fin b) = inf_of_sign (b < 0)"
| "divide_double PInf PInf = NaN"
| "divide_double MInf MInf = NaN"
| "divide_double PInf MInf = NaN"
| "divide_double MInf PInf = NaN"
| "divide_double NaN d = NaN"
| "divide_double d NaN = NaN"

definition inverse_double :: "double \<Rightarrow> double" where
  "inverse_double a = divide (Fin 1) a"

fun less_double :: "double \<Rightarrow> double \<Rightarrow> bool" where
  "less_double (Fin a) (Fin b) = (a < b)"
| "less_double (Fin a) PInf = True"
| "less_double MInf (Fin b) = True"
| "less_double MInf PInf = True"
| "less_double a b = False"

fun less_eq_double :: "double \<Rightarrow> double \<Rightarrow> bool" where
  "less_eq_double (Fin a) (Fin b) = (a \<le> b)"
| "less_eq_double (Fin a) PInf = True"
| "less_eq_double MInf (Fin b) = True"
| "less_eq_double MInf PInf = True"
| "less_eq_double PInf PInf = True"
| "less_eq_double MInf MInf = True"
| "less_eq_double a b = False"

fun abs_double :: "double \<Rightarrow> double" where
  "abs_double (Fin a) = Fin \<bar>a\<bar>"
| "abs_double PInf = PInf"
| "abs_double MInf = PInf"
| "abs_double NaN = NaN"

instance ..

end

text \<open>The C operators \<^verbatim>\<open>==\<close> and \<^verbatim>\<open>!=\<close> on doubles.\<close>

fun deq :: "double \<Rightarrow> double \<Rightarrow> bool" where
  "deq (Fin a) (Fin b) = (a = b)"
| "deq PInf PInf = True"
| "deq MInf MInf = True"
| "deq a b = False"

definition dne :: "double \<Rightarrow> double \<Rightarrow> bool" where
  "dne a b = (\<not> deq a b)"

text \<open>\<^verbatim>\<open>pow(x, 2)\<close>.\<close>

definition pow2 :: "double \<Rightarrow> double" where
  "pow2 x = x * x"

section \<open>Data\<close>

text \<open>
  Of \<^verbatim>\<open>svm_dataset\<close> the trainer reads the number of samples \<^verbatim>\<open>l\<close> and the
  labels \<^verbatim>\<open>y\<close>; the feature vectors and their cached norms are only handed to
  \<^verbatim>\<open>kernelFunction\<close>, which is declared in \<^verbatim>\<open>kernels.h\<close> and is a parameter
  \<open>K\<close> of the model (\<open>K i j\<close> for \<^verbatim>\<open>kernelFunction(dataset,i,j,props)\<close>). Of
  \<^verbatim>\<open>properties\<close> the trainer reads \<^verbatim>\<open>C\<close>, \<^verbatim>\<open>Threads\<close>, \<^verbatim>\<open>MaxSize\<close> and
  \<^verbatim>\<open>Eta\<close>. The one-letter fields are named \<open>ds_l\<close>, \<open>ds_y\<close> and \<open>prop_C\<close>.
  A C array is a list; an array that the program uses through a counter (\<^verbatim>\<open>SW\<close> with
  \<^verbatim>\<open>nSW\<close>, \<^verbatim>\<open>SIN\<close> with \<^verbatim>\<open>nSIn\<close>, \<^verbatim>\<open>SC\<close> with \<^verbatim>\<open>nSC\<close>) is the list of its
  first \<^verbatim>\<open>n\<close> entries, and the counter is the length of the list.
\<close>

record svm_dataset =
  ds_l :: nat
  ds_y :: "double list"

record properties =
  prop_C :: double
  Threads :: int
  MaxSize :: int
  Eta :: double

section \<open>rpermute\<close>

text \<open>
  \<^verbatim>\<open>rand()\<close> is modelled by the sequence \<open>rnd\<close> of the values it returns and the
  number \<open>c\<close> of calls made so far.
\<close>

fun rpermute_loop :: "(nat \<Rightarrow> nat) \<Rightarrow> nat \<Rightarrow> nat list \<Rightarrow> nat \<Rightarrow> nat list \<times> nat" where
  "rpermute_loop rnd 0 a c = (a, c)"
| "rpermute_loop rnd (Suc k) a c =
     (let j = rnd c mod (Suc k + 1);
          temp = a ! j;
          a1 = a[j := a ! Suc k];
          a2 = a1[Suc k := temp]
      in rpermute_loop rnd k a2 (Suc c))"

definition rpermute :: "(nat \<Rightarrow> nat) \<Rightarrow> nat \<Rightarrow> nat \<Rightarrow> nat list \<times> nat" where
  "rpermute rnd n c = rpermute_loop rnd (n - 1) [0..<n] c"

section \<open>trainFULL: the initial working set\<close>

record init_state =
  i_SW :: "nat list"
  i_SIN :: "nat list"
  i_e :: "double list"

definition init_step :: "int \<Rightarrow> double list \<Rightarrow> init_state \<Rightarrow> nat \<Rightarrow> init_state" where
  "init_step MaxWorkingSize ys s i =
     (let randomNum = i mod 10;
          s1 = (if randomNum < 1 \<and> int (length (i_SW s)) < MaxWorkingSize
                then s\<lparr>i_SW := i_SW s @ [i]\<rparr>
                else s\<lparr>i_SIN := i_SIN s @ [i]\<rparr>)
      in s1\<lparr>i_e := (i_e s1)[i := ys ! i]\<rparr>)"

definition init_sets :: "int \<Rightarrow> svm_dataset \<Rightarrow> init_state" where
  "init_sets MaxWorkingSize dataset =
     foldl (init_step MaxWorkingSize (ds_y dataset))
       \<lparr>i_SW = [], i_SIN = [], i_e = replicate (ds_l dataset) (Fin 0)\<rparr>
       [0..<ds_l dataset]"

section \<open>trainFULL: the scan that re-classifies the samples\<close>

record scan_state =
  SW :: "nat list"
  SIN :: "nat list"
  SC :: "nat list"
  found00 :: bool
  found01 :: bool
  found02 :: bool
  found10 :: bool
  found11 :: bool
  found12 :: bool

definition epsilonThreshold :: double where
  "epsilonThreshold = Fin (1 / 1000)"

definition scan_init :: scan_state where
  "scan_init = \<lparr>SW = [], SIN = [], SC = [], found00 = False, found01 = False,
     found02 = False, found10 = False, found11 = False, found12 = False\<rparr>"

definition scan_step ::
  "double \<Rightarrow> double list \<Rightarrow> double list \<Rightarrow> double list \<Rightarrow> scan_state \<Rightarrow> nat \<Rightarrow> scan_state" where
  "scan_step Cp ys betaNew e s i =
     (if deq (betaNew ! i * ys ! i) Cp then
        (let epsilonTmp = e ! i * ys ! i in
         if epsilonTmp < Fin (- 1) * epsilonThreshold then
           (if deq (ys ! i) (Fin (- 1)) \<and> \<not> found02 s then s\<lparr>SW := SW s @ [i], found02 := True\<rparr>
            else if deq (ys ! i) (Fin 1) \<and> \<not> found12 s then s\<lparr>SW := SW s @ [i], found12 := True\<rparr>
            else s\<lparr>SC := SC s @ [i]\<rparr>)
         else s\<lparr>SIN := SIN s @ [i]\<rparr>)
      else if deq (betaNew ! i) (Fin 0) then
        (let epsilonTmp = e ! i * ys ! i in
         if epsilonThreshold < epsilonTmp then
           (if deq (ys ! i) (Fin (- 1)) \<and> \<not> found00 s then s\<lparr>SW := SW s @ [i], found00 := True\<rparr>
            else if deq (ys ! i) (Fin 1) \<and> \<not> found10 s then s\<lparr>SW := SW s @ [i], found10 := True\<rparr>
            else s\<lparr>SC := SC s @ [i]\<rparr>)
         else s\<lparr>SIN := SIN s @ [i]\<rparr>)
      else if dne (betaNew ! i * ys ! i) (Fin 0) \<and> dne (betaNew ! i * ys ! i) Cp then
        (let epsilonTmp = \<bar>e ! i * ys ! i\<bar> in
         if epsilonThreshold < epsilonTmp then
           (if deq (ys ! i) (Fin (- 1)) \<and> \<not> found01 s then s\<lparr>SW := SW s @ [i], found01 := True\<rparr>
            else if deq (ys ! i) (Fin 1) \<and> \<not> found11 s then s\<lparr>SW := SW s @ [i], found11 := True\<rparr>
            else s\<lparr>SC := SC s @ [i]\<rparr>)
         else s\<lparr>SC := SC s @ [i]\<rparr>)
      else s)"

definition scan :: "double \<Rightarrow> nat \<Rightarrow> double list \<Rightarrow> double list \<Rightarrow> double list \<Rightarrow> scan_state" where
  "scan Cp n ys betaNew e = foldl (scan_step Cp ys betaNew e) scan_init [0..<n]"

section \<open>trainFULL: the selection of the working set\<close>

text \<open>
  The result is the working set, the inactive set and the number of calls of
  \<^verbatim>\<open>rand()\<close> made so far. The C loop of the second branch walks \<^verbatim>\<open>perm\<close> once and
  sends the first \<^verbatim>\<open>space\<close> entries to \<^verbatim>\<open>SW\<close> and the others to \<^verbatim>\<open>SIN\<close>.
\<close>

definition select_step ::
  "int \<Rightarrow> nat list \<Rightarrow> nat list \<Rightarrow> nat list \<times> nat list \<Rightarrow> nat \<Rightarrow> nat list \<times> nat list" where
  "select_step space SCs perm acc i =
     (if int i < space then (fst acc @ [SCs ! (perm ! i)], snd acc)
      else (fst acc, snd acc @ [SCs ! (perm ! i)]))"

definition select_working_set ::
  "(nat \<Rightarrow> nat) \<Rightarrow> int \<Rightarrow> scan_state \<Rightarrow> nat \<Rightarrow> nat list \<times> nat list \<times> nat" where
  "select_working_set rnd MaxWorkingSize s c =
     (let nSW = length (SW s); nSC = length (SC s) in
      if int nSC < MaxWorkingSize - int nSW then (SW s @ SC s, SIN s, c)
      else
        (let (perm, c1) = rpermute rnd nSC c;
             space = MaxWorkingSize - int nSW;
             r = foldl (select_step space (SC s) perm) (SW s, SIN s) [0..<nSC]
         in (fst r, snd r, c1)))"

section \<open>subIRWLS\<close>

text \<open>
  The locals of \<^verbatim>\<open>subIRWLS\<close> that live across the iterations of its loop. The arrays
  \<^verbatim>\<open>a\<close> and \<^verbatim>\<open>e\<close> are the fields \<open>a_arr\<close> and \<open>e_arr\<close>; \<^verbatim>\<open>S1comp\<close> and
  \<^verbatim>\<open>S3comp\<close> are the lists of their first \<^verbatim>\<open>nS1\<close> and \<^verbatim>\<open>nS3\<close> entries. The
  arrays \<^verbatim>\<open>H\<close>, \<^verbatim>\<open>et\<close> and \<^verbatim>\<open>betaAux\<close> are written afresh in every iteration
  before they are read and are values of the iteration. \<open>omp_threads\<close> is the thread
  count of the OpenMP runtime, which \<^verbatim>\<open>omp_set_num_threads\<close> sets.
\<close>

record irwls_state =
  a_arr :: "double list"
  elementGroup :: "nat list"
  S1comp :: "nat list"
  S3comp :: "nat list"
  G13 :: "double list"
  e_arr :: "double list"
  beta :: "double list"
  betaNew :: "double list"
  betaBest :: "double list"
  maxbeta :: double
  minbeta :: double
  iter :: nat
  deltaW :: double
  normW :: double
  itersSinceBestDW :: nat
  bestDW :: double
  omp_threads :: int

text \<open>The initialization loop (lines 133 to 155).\<close>

definition a_initial :: "double \<Rightarrow> double \<Rightarrow> double \<Rightarrow> double" where
  "a_initial Cp yi ei = (if ei * yi < Fin 0 then Fin 0 else Fin 1 * yi * Cp / ei)"

definition irwls_init_step :: "double \<Rightarrow> double list \<Rightarrow> irwls_state \<Rightarrow> nat \<Rightarrow> irwls_state" where
  "irwls_init_step Cp ys s i =
     (let ai = a_initial Cp (ys ! i) (e_arr s ! i);
          s1 = s\<lparr>a_arr := (a_arr s)[i := ai]\<rparr>
      in if deq ai (Fin 0) then s1\<lparr>elementGroup := (elementGroup s1)[i := 2]\<rparr>
         else if deq (beta s1 ! i) (ys ! i * Cp)
           then s1\<lparr>S3comp := S3comp s1 @ [i], elementGroup := (elementGroup s1)[i := 3]\<rparr>
           else s1\<lparr>S1comp := S1comp s1 @ [i], elementGroup := (elementGroup s1)[i := 1]\<rparr>)"

definition irwls_start :: "svm_dataset \<Rightarrow> properties \<Rightarrow> double list \<Rightarrow> double list \<Rightarrow> irwls_state" where
  "irwls_start dataset props e0 beta0 =
     foldl (irwls_init_step (prop_C props) (ds_y dataset))
       \<lparr>a_arr = replicate (ds_l dataset) (Fin 0),
        elementGroup = replicate (ds_l dataset) 0,
        S1comp = [], S3comp = [],
        G13 = replicate (ds_l dataset + 1) (Fin 0),
        e_arr = e0, beta = beta0,
        betaNew = replicate (ds_l dataset + 1) (Fin 0),
        betaBest = replicate (ds_l dataset + 1) (Fin 0),
        maxbeta = Fin 0, minbeta = Fin 0, iter = 0,
        deltaW = Fin 1000000000, normW = Fin 1, itersSinceBestDW = 0,
        bestDW = Fin 1000000000, omp_threads = Threads props\<rparr>
       [0..<ds_l dataset]"

text \<open>The condition of the \<^verbatim>\<open>while\<close> loop (line 160).\<close>

definition irwls_cond :: "properties \<Rightarrow> irwls_state \<Rightarrow> bool" where
  "irwls_cond props s =
     (iter s < 5 \<or>
      ((minbeta s < Fin 0 \<or> prop_C props < maxbeta s) \<and> iter s < 1000 \<and>
       itersSinceBestDW s < 5 \<and> Fin (1 / 1000000) < deltaW s / normW s))"

text \<open>The matrix \<^verbatim>\<open>H\<close>, row by row, and the right-hand side \<^verbatim>\<open>et\<close> (lines 167 to 188).\<close>

definition H_row :: "(nat \<Rightarrow> nat \<Rightarrow> double) \<Rightarrow> double list \<Rightarrow> irwls_state \<Rightarrow> nat \<Rightarrow> double list" where
  "H_row K ys s i =
     (let nS1 = length (S1comp s) in
      if i < nS1 then
        map (\<lambda>j. let h = K (S1comp s ! i) (S1comp s ! j) * ys ! (S1comp s ! i) * ys ! (S1comp s ! j)
                 in if i = j then h + Fin 1 / a_arr s ! (S1comp s ! i) else h) [0..<nS1]
        @ [ys ! (S1comp s ! i)]
      else map (\<lambda>j. ys ! (S1comp s ! j)) [0..<nS1] @ [Fin 0])"

definition build_H :: "(nat \<Rightarrow> nat \<Rightarrow> double) \<Rightarrow> double list \<Rightarrow> irwls_state \<Rightarrow> double list" where
  "build_H K ys s = concat (map (H_row K ys s) [0..<length (S1comp s) + 1])"

definition build_et :: "nat \<Rightarrow> double list \<Rightarrow> irwls_state \<Rightarrow> double list" where
  "build_et n GIN s =
     map (\<lambda>i. Fin 1 - G13 s ! i - GIN ! (S1comp s ! i)) [0..<length (S1comp s)]
     @ [- (G13 s ! length (S1comp s)) - GIN ! n]"

text \<open>
  The thread count of the solve (lines 194 to 196). \<^verbatim>\<open>log\<close>, \<^verbatim>\<open>floor\<close> and
  \<^verbatim>\<open>pow(2, .)\<close> are the mathematical functions, with the values of the C library at
  the special arguments. The conversion of a double to \<^verbatim>\<open>int\<close> truncates; C leaves it
  undefined on a value that is not finite, and the model gives it the value of the x86
  conversion instruction there.
\<close>

fun c_log :: "double \<Rightarrow> double" where
  "c_log (Fin x) = (if 0 < x then Fin (ln x) else if x = 0 then MInf else NaN)"
| "c_log PInf = PInf"
| "c_log MInf = NaN"
| "c_log NaN = NaN"

fun c_floor :: "double \<Rightarrow> double" where
  "c_floor (Fin x) = Fin (of_int \<lfloor>x\<rfloor>)"
| "c_floor d = d"

fun c_pow_2 :: "double \<Rightarrow> double" where
  "c_pow_2 (Fin x) = Fin (2 powr x)"
| "c_pow_2 PInf = PInf"
| "c_pow_2 MInf = Fin 0"
| "c_pow_2 NaN = NaN"

fun double_to_int :: "double \<Rightarrow> int" where
  "double_to_int (Fin x) = (if 0 \<le> x then \<lfloor>x\<rfloor> else \<lceil>x\<rceil>)"
| "double_to_int d = - 2147483648"

definition pow2_floor_log2 :: "int \<Rightarrow> int" where
  "pow2_floor_log2 n =
     double_to_int (c_pow_2 (c_floor (c_log (Fin (of_int n)) / c_log (Fin 2))))"

definition thLS_of :: "int \<Rightarrow> nat \<Rightarrow> int" where
  "thLS_of threads nS1 =
     (let t1 = pow2_floor_log2 threads;
          t2 = (if int nS1 < t1 then pow2_floor_log2 (int nS1) else t1)
      in if t2 < 1 then 1 else t2)"

text \<open>
  The solve (lines 199 to 201). \<^verbatim>\<open>ParallelLinearSystem\<close> is declared in
  \<^verbatim>\<open>ParallelAlgorithms.h\<close> and is the parameter \<open>solve\<close>: \<open>solve t n H et\<close> is the
  vector it writes to \<^verbatim>\<open>betaAux\<close> for the \<open>n \<times> n\<close> matrix \<open>H\<close>, the right-hand
  side \<open>et\<close> and \<open>t\<close> threads. The result is \<^verbatim>\<open>betaAux\<close> and the state after
  the second \<^verbatim>\<open>omp_set_num_threads\<close>.
\<close>

definition linear_system ::
  "(int \<Rightarrow> nat \<Rightarrow> double list \<Rightarrow> double list \<Rightarrow> double list) \<Rightarrow> (nat \<Rightarrow> nat \<Rightarrow> double) \<Rightarrow>
   svm_dataset \<Rightarrow> properties \<Rightarrow> double list \<Rightarrow> irwls_state \<Rightarrow> double list \<times> irwls_state" where
  "linear_system solve K dataset props GIN s =
     (let nS1 = length (S1comp s);
          H = build_H K (ds_y dataset) s;
          et = build_et (ds_l dataset) GIN s;
          thLS = thLS_of (Threads props) nS1;
          s1 = s\<lparr>omp_threads := thLS\<rparr>;
          betaAux = solve (omp_threads s1) (nS1 + 1) H et;
          s2 = s1\<lparr>omp_threads := Threads props\<rparr>
      in (betaAux, s2))"

text \<open>The new weights (lines 207 to 232).\<close>

definition minmax_step :: "double list \<Rightarrow> double \<times> double \<Rightarrow> nat \<Rightarrow> double \<times> double" where
  "minmax_step betaAux mm i =
     (let mx = (if fst mm < betaAux ! i then betaAux ! i else fst mm);
          mn = (if betaAux ! i < snd mm then betaAux ! i else snd mm)
      in (mx, mn))"

definition new_weights :: "svm_dataset \<Rightarrow> properties \<Rightarrow> double list \<Rightarrow> irwls_state \<Rightarrow> double list" where
  "new_weights dataset props betaAux s =
     (let ys = ds_y dataset;
          b0 = replicate (ds_l dataset + 1) (Fin 0);
          b1 = foldl (\<lambda>b i. b[S1comp s ! i := betaAux ! i * ys ! (S1comp s ! i)]) b0
                 [0..<length (S1comp s)];
          b2 = foldl (\<lambda>b i. b[S3comp s ! i := prop_C props * ys ! (S3comp s ! i)]) b1
                 [0..<length (S3comp s)]
      in b2[ds_l dataset := betaAux ! length (S1comp s)])"

definition update_weights :: "svm_dataset \<Rightarrow> properties \<Rightarrow> double list \<Rightarrow> irwls_state \<Rightarrow> irwls_state" where
  "update_weights dataset props betaAux s =
     (let mm = foldl (minmax_step betaAux) (Fin 0, Fin 0) [0..<length (S1comp s)];
          bn = new_weights dataset props betaAux s;
          dW = foldl (\<lambda>d i. d + pow2 (bn ! i - beta s ! i)) (Fin 0) [0..<ds_l dataset + 1];
          nW = foldl (\<lambda>d i. d + pow2 (beta s ! i)) (Fin 0) [0..<ds_l dataset + 1]
      in s\<lparr>maxbeta := fst mm, minbeta := snd mm, betaNew := bn, deltaW := dW, normW := nW\<rparr>)"

text \<open>The error of the training set (lines 241 to 250).\<close>

definition new_error :: "(nat \<Rightarrow> nat \<Rightarrow> double) \<Rightarrow> nat \<Rightarrow> irwls_state \<Rightarrow> nat \<Rightarrow> double" where
  "new_error K n s i =
     foldl (\<lambda>ei j. if dne (betaNew s ! j) (beta s ! j)
                    then ei - K i j * (betaNew s ! j - beta s ! j) else ei)
       (e_arr s ! i) [0..<n]
     - (betaNew s ! n - beta s ! n)"

definition update_error :: "(nat \<Rightarrow> nat \<Rightarrow> double) \<Rightarrow> svm_dataset \<Rightarrow> irwls_state \<Rightarrow> irwls_state" where
  "update_error K dataset s =
     s\<lparr>e_arr := foldl (\<lambda>es i. es[i := new_error K (ds_l dataset) s i]) (e_arr s) [0..<ds_l dataset]\<rparr>"

text \<open>The best snapshot (lines 253 to 259).\<close>

definition track_best :: "irwls_state \<Rightarrow> irwls_state" where
  "track_best s =
     (if deltaW s / normW s < bestDW s
      then s\<lparr>bestDW := deltaW s / normW s, itersSinceBestDW := 0, betaBest := betaNew s\<rparr>
      else s\<lparr>itersSinceBestDW := itersSinceBestDW s + 1\<rparr>)"

text \<open>The groups of the samples (lines 269 to 302).\<close>

definition a_regroup :: "double \<Rightarrow> double \<Rightarrow> double \<Rightarrow> double" where
  "a_regroup Cp yi ei =
     (if ei * yi < Fin 0 then Fin 0
      else if ei * yi < Fin (1 / 10000) then Cp * Fin 10000
      else Fin 1 * yi * Cp / ei)"

definition group_regroup :: "double \<Rightarrow> double \<Rightarrow> double \<Rightarrow> double \<Rightarrow> double \<Rightarrow> nat \<Rightarrow> nat" where
  "group_regroup Cp yi ei ai bi g0 =
     (let g1 = (if ei * yi < Fin 0 \<and> g0 \<noteq> 2 then 2 else g0);
          g2 = (if g1 = 1 \<and> Fin (99 / 100) * Cp \<le> yi * bi \<and> yi * bi \<le> Fin (101 / 100) * Cp
                then 3 else g1);
          g3 = (if deq ai (Fin 0) \<and> g2 = 1 then 2 else g2)
      in if g3 = 2 \<and> dne ai (Fin 0) then 1 else g3)"

definition regroup_step :: "double \<Rightarrow> double list \<Rightarrow> irwls_state \<Rightarrow> nat \<Rightarrow> irwls_state" where
  "regroup_step Cp ys s i =
     (let ai = a_regroup Cp (ys ! i) (e_arr s ! i);
          g = group_regroup Cp (ys ! i) (e_arr s ! i) ai (betaNew s ! i) (elementGroup s ! i)
      in s\<lparr>a_arr := (a_arr s)[i := ai], elementGroup := (elementGroup s)[i := g],
           beta := (beta s)[i := betaNew s ! i]\<rparr>)"

definition regroup :: "svm_dataset \<Rightarrow> properties \<Rightarrow> irwls_state \<Rightarrow> irwls_state" where
  "regroup dataset props s =
     (let s1 = foldl (regroup_step (prop_C props) (ds_y dataset)) s [0..<ds_l dataset]
      in s1\<lparr>beta := (beta s1)[ds_l dataset := betaNew s1 ! ds_l dataset]\<rparr>)"

text \<open>
  The index lists and the influence \<^verbatim>\<open>G13\<close> of the bounded samples (lines 304 to
  346). The entries \<^verbatim>\<open>et[o]\<close> read in the sums were all set to \<^verbatim>\<open>C\<close>.
\<close>

definition new_G13 :: "(nat \<Rightarrow> nat \<Rightarrow> double) \<Rightarrow> double \<Rightarrow> double list \<Rightarrow> nat list \<Rightarrow> nat list \<Rightarrow> double list" where
  "new_G13 K Cp ys S1 S3 =
     (if 0 < length S3 then
        map (\<lambda>i. foldl (\<lambda>g ob. g + Cp * K (S1 ! i) (S3 ! ob) * ys ! (S1 ! i) * ys ! (S3 ! ob))
                   (Fin 0) [0..<length S3]) [0..<length S1]
        @ [foldl (\<lambda>g ob. g + Cp * ys ! (S3 ! ob)) (Fin 0) [0..<length S3]]
      else replicate (length S1 + 1) (Fin 0))"

definition update_H13 :: "(nat \<Rightarrow> nat \<Rightarrow> double) \<Rightarrow> svm_dataset \<Rightarrow> properties \<Rightarrow> irwls_state \<Rightarrow> irwls_state" where
  "update_H13 K dataset props s =
     (let S1 = filter (\<lambda>i. elementGroup s ! i = 1) [0..<ds_l dataset];
          S3 = filter (\<lambda>i. elementGroup s ! i = 3) [0..<ds_l dataset]
      in s\<lparr>S1comp := S1, S3comp := S3,
           G13 := new_G13 K (prop_C props) (ds_y dataset) S1 S3 @ drop (length S1 + 1) (G13 s)\<rparr>)"

text \<open>One iteration of the loop, the loop and the function.\<close>

definition irwls_body ::
  "(int \<Rightarrow> nat \<Rightarrow> double list \<Rightarrow> double list \<Rightarrow> double list) \<Rightarrow> (nat \<Rightarrow> nat \<Rightarrow> double) \<Rightarrow>
   svm_dataset \<Rightarrow> properties \<Rightarrow> double list \<Rightarrow> irwls_state \<Rightarrow> irwls_state" where
  "irwls_body solve K dataset props GIN s =
     (let s0 = s\<lparr>iter := iter s + 1\<rparr>;
          ls = linear_system solve K dataset props GIN s0;
          betaAux = fst ls;
          s1 = snd ls;
          s2 = update_weights dataset props betaAux s1;
          s3 = update_error K dataset s2;
          s4 = track_best s3;
          s5 = regroup dataset props s4
      in update_H13 K dataset props s5)"

function irwls_loop ::
  "(int \<Rightarrow> nat \<Rightarrow> double list \<Rightarrow> double list \<Rightarrow> double list) \<Rightarrow> (nat \<Rightarrow> nat \<Rightarrow> double) \<Rightarrow>
   svm_dataset \<Rightarrow> properties \<Rightarrow> double list \<Rightarrow> irwls_state \<Rightarrow> irwls_state" where
  "irwls_loop solve K dataset props GIN s =
     (if irwls_cond props s
      then irwls_loop solve K dataset props GIN (irwls_body solve K dataset props GIN s)
      else s)"
  by pat_completeness auto

lemma iter_linear_system:
  "iter (snd (linear_system solve K dataset props GIN s)) = iter s"
  by (simp add: linear_system_def Let_def)

lemma iter_update_weights: "iter (update_weights dataset props betaAux s) = iter s"
  by (simp add: update_weights_def Let_def)

lemma iter_update_error: "iter (update_error K dataset s) = iter s"
  by (simp add: update_error_def)

lemma iter_track_best: "iter (track_best s) = iter s"
  by (simp add: track_best_def)

lemma iter_regroup_fold:
  "iter (foldl (regroup_step Cp ys) s xs) = iter s"
  by (induction xs arbitrary: s) (simp_all add: regroup_step_def Let_def)

lemma iter_regroup: "iter (regroup dataset props s) = iter s"
  by (simp add: regroup_def Let_def iter_regroup_fold)

lemma iter_update_H13: "iter (update_H13 K dataset props s) = iter s"
  by (simp add: update_H13_def Let_def)

lemma iter_irwls_body: "iter (irwls_body solve K dataset props GIN s) = iter s + 1"
  by (simp add: irwls_body_def Let_def iter_update_H13 iter_regroup iter_track_best
      iter_update_error iter_update_weights iter_linear_system)

lemma irwls_cond_iter: "irwls_cond props s \<Longrightarrow> iter s < 1000"
  by (auto simp add: irwls_cond_def)

termination irwls_loop
proof (relation "measure (\<lambda>(solve, K, dataset, props, GIN, s). 1000 - iter s)")
  show "wf (measure (\<lambda>(solve, K, dataset, props, GIN, s). 1000 - iter s))" by simp
next
  fix solve :: "int \<Rightarrow> nat \<Rightarrow> double list \<Rightarrow> double list \<Rightarrow> double list"
    and K :: "nat \<Rightarrow> nat \<Rightarrow> double" and dataset :: svm_dataset and props :: properties
    and GIN :: "double list" and s :: irwls_state
  assume "irwls_cond props s"
  then have "iter s < 1000" by (rule irwls_cond_iter)
  then show "((solve, K, dataset, props, GIN, irwls_body solve K dataset props GIN s),
              (solve, K, dataset, props, GIN, s))
             \<in> measure (\<lambda>(solve, K, dataset, props, GIN, s). 1000 - iter s)"
    by (simp add: iter_irwls_body)
qed


declare irwls_loop.simps [simp del]

definition subIRWLS ::
  "(int \<Rightarrow> nat \<Rightarrow> double list \<Rightarrow> double list \<Rightarrow> double list) \<Rightarrow> (nat \<Rightarrow> nat \<Rightarrow> double) \<Rightarrow>
   svm_dataset \<Rightarrow> properties \<Rightarrow> double list \<Rightarrow> double list \<Rightarrow> double list \<Rightarrow> double list" where
  "subIRWLS solve K dataset props GIN e0 beta0 =
     betaBest (irwls_loop solve K dataset props GIN (irwls_start dataset props e0 beta0))"



section \<open>trainFULL\<close>

text \<open>
  The locals of \<^verbatim>\<open>trainFULL\<close> that live across the iterations of its loop;
  \<open>rand_calls\<close> is the number of calls of \<^verbatim>\<open>rand()\<close> made so far. \<^verbatim>\<open>SC\<close> and the
  \<^verbatim>\<open>found\<close> flags are reset in every iteration and belong to the scan.
\<close>

record train_state =
  t_e :: "double list"
  t_beta :: "double list"
  t_betaNew :: "double list"
  t_betaBest :: "double list"
  t_SW :: "nat list"
  t_SIN :: "nat list"
  t_GIN :: "double list"
  t_iter :: nat
  endNorm :: nat
  bestNorm :: double
  SinceBest :: nat
  rand_calls :: nat

definition train_start :: "svm_dataset \<Rightarrow> properties \<Rightarrow> train_state" where
  "train_start dataset props =
     (let MaxWorkingSize = MaxSize props;
          s0 = init_sets MaxWorkingSize dataset
      in \<lparr>t_e = i_e s0,
          t_beta = replicate (ds_l dataset + 1) (Fin 0),
          t_betaNew = replicate (ds_l dataset + 1) (Fin 0),
          t_betaBest = replicate (ds_l dataset + 1) (Fin 0),
          t_SW = i_SW s0, t_SIN = i_SIN s0,
          t_GIN = replicate (nat (MaxWorkingSize + 1)) (Fin 0),
          t_iter = 0, endNorm = 0, bestNorm = Fin 100000000000000000000, SinceBest = 0,
          rand_calls = 0\<rparr>)"

text \<open>\<^verbatim>\<open>GIN\<close> (lines 438 to 458): it is left as it was when the inactive set is empty.\<close>

definition new_GIN :: "(nat \<Rightarrow> nat \<Rightarrow> double) \<Rightarrow> double list \<Rightarrow> train_state \<Rightarrow> double list" where
  "new_GIN K ys s =
     (if 0 < length (t_SIN s) then
        map (\<lambda>i. foldl (\<lambda>g ob. if dne (t_betaNew s ! (t_SIN s ! ob)) (Fin 0)
                              then g + t_betaNew s ! (t_SIN s ! ob) * K (t_SW s ! i) (t_SIN s ! ob)
                                       * ys ! (t_SW s ! i)
                              else g)
                   (Fin 0) [0..<length (t_SIN s)]) [0..<length (t_SW s)]
        @ [foldl (\<lambda>g ob. g + t_betaNew s ! (t_SIN s ! ob)) (Fin 0) [0..<length (t_SIN s)]]
        @ drop (length (t_SW s) + 1) (t_GIN s)
      else t_GIN s)"

text \<open>The sub-dataset and the call of \<^verbatim>\<open>subIRWLS\<close> (lines 465 to 482).\<close>

definition call_subIRWLS ::
  "(int \<Rightarrow> nat \<Rightarrow> double list \<Rightarrow> double list \<Rightarrow> double list) \<Rightarrow> (nat \<Rightarrow> nat \<Rightarrow> double) \<Rightarrow>
   svm_dataset \<Rightarrow> properties \<Rightarrow> train_state \<Rightarrow> double list" where
  "call_subIRWLS solve K dataset props s =
     (let nSW = length (t_SW s);
          subdataset = \<lparr>ds_l = nSW, ds_y = map (\<lambda>i. ds_y dataset ! i) (t_SW s)\<rparr>;
          betasub = map (\<lambda>i. t_beta s ! i) (t_SW s) @ [t_beta s ! ds_l dataset];
          esub = map (\<lambda>i. t_e s ! i) (t_SW s)
      in subIRWLS solve (\<lambda>i j. K (t_SW s ! i) (t_SW s ! j)) subdataset props (t_GIN s) esub betasub)"

text \<open>The merge of the candidate into \<^verbatim>\<open>betaNew\<close> (lines 490 to 497).\<close>

definition merge_weights :: "nat \<Rightarrow> nat list \<Rightarrow> double list \<Rightarrow> double list \<Rightarrow> double list" where
  "merge_weights n SWs beta0 betaTmp =
     (foldl (\<lambda>b i. b[SWs ! i := betaTmp ! i]) beta0 [0..<length SWs])
       [n := betaTmp ! length SWs]"

text \<open>The error of every sample (lines 502 to 511).\<close>

definition train_new_error :: "(nat \<Rightarrow> nat \<Rightarrow> double) \<Rightarrow> nat \<Rightarrow> train_state \<Rightarrow> nat \<Rightarrow> double" where
  "train_new_error K n s i =
     foldl (\<lambda>ei j. ei - K i (t_SW s ! j) * (t_betaNew s ! (t_SW s ! j) - t_beta s ! (t_SW s ! j)))
       (t_e s ! i) [0..<length (t_SW s)]
     - (t_betaNew s ! n - t_beta s ! n)"

definition train_update_error :: "(nat \<Rightarrow> nat \<Rightarrow> double) \<Rightarrow> nat \<Rightarrow> train_state \<Rightarrow> train_state" where
  "train_update_error K n s =
     s\<lparr>t_e := foldl (\<lambda>es i. es[i := train_new_error K n s i]) (t_e s) [0..<n]\<rparr>"

text \<open>The convergence check and the best snapshot (lines 516 to 535).\<close>

definition train_deltaW :: "nat \<Rightarrow> train_state \<Rightarrow> double" where
  "train_deltaW n s = foldl (\<lambda>d i. d + pow2 (t_beta s ! i - t_betaNew s ! i)) (Fin 0) [0..<n + 1]"

definition train_normW :: "nat \<Rightarrow> train_state \<Rightarrow> double" where
  "train_normW n s = foldl (\<lambda>d i. d + pow2 (t_beta s ! i)) (Fin 0) [0..<n + 1]"

definition convergence_check :: "nat \<Rightarrow> properties \<Rightarrow> train_state \<Rightarrow> train_state" where
  "convergence_check n props s =
     (let deltaW = train_deltaW n s;
          normW = train_normW n s;
          s1 = (if deltaW / normW < Eta props then s\<lparr>endNorm := 1\<rparr> else s);
          s2 = s1\<lparr>t_beta := t_betaNew s1\<rparr>
      in if deltaW / normW < bestNorm s2
         then s2\<lparr>bestNorm := deltaW / normW, SinceBest := 0, t_betaBest := t_betaNew s2\<rparr>
         else s2\<lparr>SinceBest := SinceBest s2 + 1\<rparr>)"

text \<open>The next working set (lines 542 to 645).\<close>

definition next_working_set :: "(nat \<Rightarrow> nat) \<Rightarrow> svm_dataset \<Rightarrow> properties \<Rightarrow> train_state \<Rightarrow> train_state" where
  "next_working_set rnd dataset props s =
     (let sc = scan (prop_C props) (ds_l dataset) (ds_y dataset) (t_betaNew s) (t_e s);
          r = select_working_set rnd (MaxSize props) sc (rand_calls s)
      in s\<lparr>t_SW := fst r, t_SIN := fst (snd r), rand_calls := snd (snd r)\<rparr>)"

text \<open>
  One iteration of the loop in three parts: up to the sub-dataset (lines 434 to
  458), from there to the update of the errors (lines 465 to 511), and the whole body.
\<close>

definition train_prepare :: "(nat \<Rightarrow> nat \<Rightarrow> double) \<Rightarrow> svm_dataset \<Rightarrow> train_state \<Rightarrow> train_state" where
  "train_prepare K dataset s =
     (let s0 = s\<lparr>t_iter := t_iter s + 1\<rparr>
      in s0\<lparr>t_GIN := new_GIN K (ds_y dataset) s0\<rparr>)"

definition train_to_check ::
  "(int \<Rightarrow> nat \<Rightarrow> double list \<Rightarrow> double list \<Rightarrow> double list) \<Rightarrow> (nat \<Rightarrow> nat \<Rightarrow> double) \<Rightarrow>
   svm_dataset \<Rightarrow> properties \<Rightarrow> train_state \<Rightarrow> train_state" where
  "train_to_check solve K dataset props s =
     (let s1 = train_prepare K dataset s;
          betaTmp = call_subIRWLS solve K dataset props s1;
          s2 = s1\<lparr>t_betaNew := merge_weights (ds_l dataset) (t_SW s1) (t_beta s1) betaTmp\<rparr>
      in train_update_error K (ds_l dataset) s2)"

definition train_body ::
  "(int \<Rightarrow> nat \<Rightarrow> double list \<Rightarrow> double list \<Rightarrow> double list) \<Rightarrow> (nat \<Rightarrow> nat \<Rightarrow> double) \<Rightarrow>
   (nat \<Rightarrow> nat) \<Rightarrow> svm_dataset \<Rightarrow> properties \<Rightarrow> train_state \<Rightarrow> train_state" where
  "train_body solve K rnd dataset props s =
     next_working_set rnd dataset props
       (convergence_check (ds_l dataset) props (train_to_check solve K dataset props s))"

definition train_cond :: "train_state \<Rightarrow> bool" where
  "train_cond s = (endNorm s = 0 \<and> SinceBest s < 300)"

partial_function (option) train_loop ::
  "(int \<Rightarrow> nat \<Rightarrow> double list \<Rightarrow> double list \<Rightarrow> double list) \<Rightarrow> (nat \<Rightarrow> nat \<Rightarrow> double) \<Rightarrow>
   (nat \<Rightarrow> nat) \<Rightarrow> svm_dataset \<Rightarrow> properties \<Rightarrow> train_state \<Rightarrow> train_state option" where
  "train_loop solve K rnd dataset props s =
     (if train_cond s
      then train_loop solve K rnd dataset props (train_body solve K rnd dataset props s)
      else Some s)"

definition trainFULL ::
  "(int \<Rightarrow> nat \<Rightarrow> double list \<Rightarrow> double list \<Rightarrow> double list) \<Rightarrow> (nat \<Rightarrow> nat \<Rightarrow> double) \<Rightarrow>
   (nat \<Rightarrow> nat) \<Rightarrow> svm_dataset \<Rightarrow> properties \<Rightarrow> double list option" where
  "trainFULL solve K rnd dataset props =
     map_option t_betaNew (train_loop solve K rnd dataset props (train_start dataset props))"

section \<open>The external services on small inputs\<close>

text \<open>
  Modelled from the spec: \<^verbatim>\<open>kernelFunction\<close> (\<^verbatim>\<open>kernels.c\<close> is not among the
  sources). For the linear kernel the spec says: the dot product of the two samples. The
  samples here have one feature each, \<open>xs ! i\<close>.
\<close>

definition linear_kernel :: "real list \<Rightarrow> nat \<Rightarrow> nat \<Rightarrow> double" where
  "linear_kernel xs i j = Fin (xs ! i * xs ! j)"

text \<open>
  Modelled from the spec: \<^verbatim>\<open>ParallelLinearSystem\<close> (\<^verbatim>\<open>ParallelAlgorithms.c\<close> is not
  among the sources). The spec says: given a dense matrix of size \<open>n \<times> n\<close> and a
  right-hand side, it returns a solution vector. \<open>gauss_solve\<close> is Gauss-Jordan
  elimination on the rows of the matrix extended by the right-hand side; on a system with
  one solution it returns that solution, whatever the thread count. It answers \<open>NaN\<close> where
  an entry is not finite or no pivot is left.
\<close>

fun is_fin :: "double \<Rightarrow> bool" where
  "is_fin (Fin x) = True"
| "is_fin d = False"

fun fin_val :: "double \<Rightarrow> real" where
  "fin_val (Fin x) = x"
| "fin_val d = 0"

definition aug_rows :: "nat \<Rightarrow> double list \<Rightarrow> double list \<Rightarrow> real list list option" where
  "aug_rows n H b =
     (if list_all is_fin (take (n * n) H @ take n b)
      then Some (map (\<lambda>i. map (\<lambda>j. fin_val (H ! (i * n + j))) [0..<n] @ [fin_val (b ! i)]) [0..<n])
      else None)"

definition find_pivot :: "real list list \<Rightarrow> nat \<Rightarrow> nat option" where
  "find_pivot rows c = find (\<lambda>r. rows ! r ! c \<noteq> 0) [c..<length rows]"

definition eliminate :: "real list list \<Rightarrow> nat \<Rightarrow> nat \<Rightarrow> real list list" where
  "eliminate rows c p =
     (let rows1 = rows[c := rows ! p, p := rows ! c];
          pr = map (\<lambda>v. v / (rows1 ! c ! c)) (rows1 ! c)
      in map (\<lambda>r. if r = c then pr
                   else map (\<lambda>k. rows1 ! r ! k - rows1 ! r ! c * pr ! k) [0..<length pr])
           [0..<length rows1])"

definition gauss_step :: "real list list option \<Rightarrow> nat \<Rightarrow> real list list option" where
  "gauss_step acc c =
     (case acc of
        None \<Rightarrow> None
      | Some rows \<Rightarrow>
          (case find_pivot rows c of None \<Rightarrow> None | Some p \<Rightarrow> Some (eliminate rows c p)))"

definition gauss_solve :: "int \<Rightarrow> nat \<Rightarrow> double list \<Rightarrow> double list \<Rightarrow> double list" where
  "gauss_solve threads n H b =
     (case foldl gauss_step (aug_rows n H b) [0..<n] of
        None \<Rightarrow> replicate n NaN
      | Some rows \<Rightarrow> map (\<lambda>r. Fin (r ! n)) rows)"

section \<open>The six violation categories\<close>

text \<open>
  The category of a sample in the scan: its label and the kind of its violation, as the
  three branches of the scan test them. A sample that violates nothing, or whose label is
  neither \<open>-1\<close> nor \<open>1\<close>, has no category. \<open>found_flag\<close> is the flag of the scan
  for a category.
\<close>

datatype label_cls = Neg | Pos

datatype viol_kind = Zero | NonBound | UpperBound

definition label_of :: "double \<Rightarrow> label_cls option" where
  "label_of yi =
     (if deq yi (Fin (- 1)) then Some Neg else if deq yi (Fin 1) then Some Pos else None)"

definition kind_of :: "double \<Rightarrow> double \<Rightarrow> double \<Rightarrow> double \<Rightarrow> viol_kind option" where
  "kind_of Cp yi bi ei =
     (if deq (bi * yi) Cp then
        (if ei * yi < Fin (- 1) * epsilonThreshold then Some UpperBound else None)
      else if deq bi (Fin 0) then (if epsilonThreshold < ei * yi then Some Zero else None)
      else if dne (bi * yi) (Fin 0) \<and> dne (bi * yi) Cp then
        (if epsilonThreshold < \<bar>ei * yi\<bar> then Some NonBound else None)
      else None)"

definition category ::
  "double \<Rightarrow> double list \<Rightarrow> double list \<Rightarrow> double list \<Rightarrow> nat \<Rightarrow>
   (label_cls \<times> viol_kind) option" where
  "category Cp ys bs es i =
     (case kind_of Cp (ys ! i) (bs ! i) (es ! i) of
        None \<Rightarrow> None
      | Some k \<Rightarrow> (case label_of (ys ! i) of None \<Rightarrow> None | Some lb \<Rightarrow> Some (lb, k)))"

fun found_flag :: "scan_state \<Rightarrow> label_cls \<times> viol_kind \<Rightarrow> bool" where
  "found_flag s (Neg, Zero) = found00 s"
| "found_flag s (Neg, NonBound) = found01 s"
| "found_flag s (Neg, UpperBound) = found02 s"
| "found_flag s (Pos, Zero) = found10 s"
| "found_flag s (Pos, NonBound) = found11 s"
| "found_flag s (Pos, UpperBound) = found12 s"

text \<open>The sample \<open>i\<close> is the first of its category in the order of the scan.\<close>

definition first_of_category :: "(nat \<Rightarrow> (label_cls \<times> viol_kind) option) \<Rightarrow> nat \<Rightarrow> bool" where
  "first_of_category cat i = (cat i \<noteq> None \<and> (\<forall>j<i. cat j \<noteq> cat i))"

text \<open>
  The weight of a sample as claim C6 states it, for the initial weighting and for the
  re-partitioning alike: zero for a negative \<open>e\<^sub>i y\<^sub>i\<close>, the cap \<open>10\<^sup>4 C\<close> for
  \<open>e\<^sub>i y\<^sub>i\<close> within \<open>10\<^sup>-\<^sup>4\<close> of zero, the quotient otherwise.
\<close>

definition a_claimed :: "double \<Rightarrow> double \<Rightarrow> double \<Rightarrow> double" where
  "a_claimed Cp yi ei =
     (if ei * yi < Fin 0 then Fin 0
      else if ei * yi < Fin (1 / 10000) then Cp * Fin 10000
      else yi * Cp / ei)"

text \<open>\<open>r\<close> is the largest power of two that does not exceed \<open>m\<close>.\<close>

definition largest_pow2 :: "int \<Rightarrow> int \<Rightarrow> bool" where
  "largest_pow2 r m = ((\<exists>k::nat. r = 2 ^ k) \<and> r \<le> m \<and> m < 2 * r)"

text \<open>The indices below \<open>n\<close> that are multiples of ten.\<close>

definition tens :: "nat \<Rightarrow> nat list" where
  "tens n = filter (\<lambda>i. i mod 10 = 0) [0..<n]"

section \<open>Example inputs\<close>

text \<open>Small concrete inputs on which the theorems below are exercised.\<close>

definition sel_ys :: "double list" where "sel_ys = [Fin 1, Fin (- 1), Fin 1, Fin 1]"

definition sel_bs :: "double list" where "sel_bs = [Fin 0, Fin 0, Fin 0, Fin 0]"

definition sel_es :: "double list" where "sel_es = [Fin 1, Fin (- 1), Fin 1, Fin 1]"

definition thr_ds :: svm_dataset where
  "thr_ds = \<lparr>ds_l = 3, ds_y = [Fin 1, Fin (- 1), Fin 1]\<rparr>"

definition thr_props :: properties where
  "thr_props = \<lparr>prop_C = Fin 1, Threads = 4, MaxSize = 500, Eta = Fin (1 / 1000)\<rparr>"

definition thr_state :: irwls_state where
  "thr_state = irwls_start thr_ds thr_props [Fin 1, Fin (- 1), Fin 1] [Fin 0, Fin 0, Fin 0, Fin 0]"

definition cap_ds :: svm_dataset where
  "cap_ds = \<lparr>ds_l = 1, ds_y = [Fin 1]\<rparr>"

definition cap_props :: properties where
  "cap_props = \<lparr>prop_C = Fin 1, Threads = 1, MaxSize = 500, Eta = Fin (1 / 1000)\<rparr>"

definition cap_e :: "double list" where
  "cap_e = [Fin (1 / 20000)]"

definition cap_beta :: "double list" where
  "cap_beta = [Fin (1 / 2), Fin 0]"







definition tight_xs :: "real list" where
  "tight_xs = [1, 0, 0, 2, 2, 2, 2, 2, 2, 2, - 1]"

definition tight_ds :: svm_dataset where
  "tight_ds = \<lparr>ds_l = 11, ds_y = [Fin 1, Fin 1, Fin (- 1), Fin 1, Fin 1, Fin 1, Fin 1, Fin 1,
     Fin 1, Fin 1, Fin (- 1)]\<rparr>"

definition tight_props :: properties where
  "tight_props = \<lparr>prop_C = Fin 1, Threads = 1, MaxSize = 2, Eta = Fin (1 / 1000)\<rparr>"

section \<open>The initial working set\<close>

lemma tens_Suc: "tens (Suc n) = tens n @ (if n mod 10 = 0 then [n] else [])"
  by (simp add: tens_def)

lemma tens_bound: "i \<in> set (tens n) \<Longrightarrow> i < n"
  by (simp add: tens_def)

lemma init_step_SW:
  "i_SW (init_step M ys s i) =
     (if i mod 10 = 0 \<and> int (length (i_SW s)) < M then i_SW s @ [i] else i_SW s)"
  by (simp add: init_step_def Let_def)

lemma init_step_SIN:
  "i_SIN (init_step M ys s i) =
     (if i mod 10 = 0 \<and> int (length (i_SW s)) < M then i_SIN s else i_SIN s @ [i])"
  by (simp add: init_step_def Let_def)

lemma init_step_e: "i_e (init_step M ys s i) = (i_e s)[i := ys ! i]"
  by (simp add: init_step_def Let_def)

lemma init_fold_SW:
  "i_SW (foldl (init_step M ys) \<lparr>i_SW = [], i_SIN = [], i_e = es\<rparr> [0..<n]) = take (nat M) (tens n)"
proof (induction n)
  case 0
  show ?case by (simp add: tens_def)
next
  case (Suc n)
  show ?case
  proof (cases "n mod 10 = 0 \<and> int (length (take (nat M) (tens n))) < M")
    case True
    then have "length (tens n) < nat M" by auto
    with True Suc show ?thesis
      by (simp add: init_step_SW tens_Suc)
  next
    case False
    then have "n mod 10 \<noteq> 0 \<or> nat M \<le> length (tens n)" by auto
    with False Suc show ?thesis
      by (auto simp add: init_step_SW tens_Suc)
  qed
qed

lemma init_fold_SIN:
  "i_SIN (foldl (init_step M ys) \<lparr>i_SW = [], i_SIN = [], i_e = es\<rparr> [0..<n]) =
     filter (\<lambda>i. i \<notin> set (take (nat M) (tens n))) [0..<n]"
proof (induction n)
  case 0
  show ?case by simp
next
  case (Suc n)
  let ?s = "foldl (init_step M ys) \<lparr>i_SW = [], i_SIN = [], i_e = es\<rparr> [0..<n]"
  have sw: "i_SW ?s = take (nat M) (tens n)" by (rule init_fold_SW)
  have old: "\<And>i. i < n \<Longrightarrow> (i \<in> set (take (nat M) (tens (Suc n)))) = (i \<in> set (take (nat M) (tens n)))"
    by (auto simp add: tens_Suc dest: in_set_takeD)
  have notin: "n \<notin> set (take (nat M) (tens n))"
    using tens_bound[of n n] by (auto dest: in_set_takeD)
  have flt: "filter (\<lambda>i. i \<notin> set (take (nat M) (tens (Suc n)))) [0..<n]
      = filter (\<lambda>i. i \<notin> set (take (nat M) (tens n))) [0..<n]"
    by (rule filter_cong) (auto simp add: old)
  show ?case
  proof (cases "n mod 10 = 0 \<and> int (length (i_SW ?s)) < M")
    case True
    then have "length (tens n) < nat M" by (auto simp add: sw)
    then have "n \<in> set (take (nat M) (tens (Suc n)))" using True by (simp add: tens_Suc)
    with True Suc flt show ?thesis
      by (simp add: init_step_SIN)
  next
    case False
    then have "n mod 10 \<noteq> 0 \<or> nat M \<le> length (tens n)" by (auto simp add: sw)
    then have "take (nat M) (tens (Suc n)) = take (nat M) (tens n)" by (auto simp add: tens_Suc)
    with False Suc notin show ?thesis
      by (simp add: init_step_SIN)
  qed
qed

lemma init_fold_e_len:
  "length (i_e (foldl (init_step M ys) s [0..<n])) = length (i_e s)"
  by (induction n) (simp_all add: init_step_e)

lemma init_fold_e:
  "n \<le> length es \<Longrightarrow> i_e (foldl (init_step M ys) \<lparr>i_SW = [], i_SIN = [], i_e = es\<rparr> [0..<n]) =
     map (\<lambda>i. ys ! i) [0..<n] @ drop n es"
proof (induction n)
  case 0
  show ?case by simp
next
  case (Suc n)
  then have n: "n < length es" by simp
  have "(map ((!) ys) [0..<n] @ drop n es)[n := ys ! n] = map ((!) ys) [0..<n] @ (drop n es)[0 := ys ! n]"
    by (simp add: list_update_append)
  also have "(drop n es)[0 := ys ! n] = ys ! n # drop (Suc n) es"
    using n by (simp add: Cons_nth_drop_Suc[symmetric])
  finally show ?case using Suc n
    by (simp add: init_step_e)
qed

text \<open>
  Claim C9. The initial working set of \<^verbatim>\<open>trainFULL\<close> is built without randomness: it
  holds, in increasing order, the indices that are multiples of ten, up to
  \<^verbatim>\<open>MaxWorkingSize\<close> of them; every other sample is in the inactive set; and the error
  of every sample starts as its label.
\<close>

theorem initial_working_set:
  "i_SW (init_sets M ds) = take (nat M) (filter (\<lambda>i. i mod 10 = 0) [0..<ds_l ds]) \<and>
   i_SIN (init_sets M ds) = filter (\<lambda>i. i \<notin> set (i_SW (init_sets M ds))) [0..<ds_l ds] \<and>
   i_e (init_sets M ds) = map (\<lambda>i. ds_y ds ! i) [0..<ds_l ds]"
  using init_fold_SW[of M "ds_y ds" "replicate (ds_l ds) (Fin 0)" "ds_l ds"]
        init_fold_SIN[of M "ds_y ds" "replicate (ds_l ds) (Fin 0)" "ds_l ds"]
        init_fold_e[of "ds_l ds" "replicate (ds_l ds) (Fin 0)" M "ds_y ds"]
  by (simp add: init_sets_def tens_def)

section \<open>The scan and the selection\<close>

lemma deq_labels: "deq yi (Fin 1) \<Longrightarrow> deq yi (Fin (- 1)) \<Longrightarrow> False"
  by (cases yi) simp_all

lemma scan_step_SW:
  "SW (scan_step Cp ys b e s i) =
     (case category Cp ys b e i of
        None \<Rightarrow> SW s
      | Some c \<Rightarrow> if found_flag s c then SW s else SW s @ [i])"
  by (auto simp add: scan_step_def category_def kind_of_def label_of_def Let_def dne_def
        dest: deq_labels)

lemma scan_step_found:
  "found_flag (scan_step Cp ys b e s i) c =
     (found_flag s c \<or> category Cp ys b e i = Some c)"
proof -
  obtain lb k where c: "c = (lb, k)" by (cases c)
  show ?thesis unfolding c
    by (cases lb; cases k)
       (auto simp add: scan_step_def category_def kind_of_def label_of_def Let_def dne_def
          dest: deq_labels)
qed

lemma scan_found:
  "found_flag (foldl (scan_step Cp ys b e) scan_init [0..<n]) c =
     (\<exists>j<n. category Cp ys b e j = Some c)"
proof (induction n)
  case 0
  obtain lb k where c: "c = (lb, k)" by (cases c)
  show ?case unfolding c by (cases lb; cases k) (simp_all add: scan_init_def)
next
  case (Suc n)
  then show ?case by (auto simp add: scan_step_found less_Suc_eq)
qed

lemma scan_SW:
  "SW (foldl (scan_step Cp ys b e) scan_init [0..<n]) =
     filter (first_of_category (category Cp ys b e)) [0..<n]"
proof (induction n)
  case 0
  show ?case by (simp add: scan_init_def)
next
  case (Suc n)
  have "first_of_category (category Cp ys b e) n =
      (\<exists>c. category Cp ys b e n = Some c \<and> \<not> (\<exists>j<n. category Cp ys b e j = Some c))"
    by (auto simp add: first_of_category_def)
  with Suc show ?case
    by (auto simp add: scan_step_SW scan_found split: option.splits)
qed

lemma box_cases:
  "deq yi (Fin 1) \<or> deq yi (Fin (- 1)) \<Longrightarrow>
   deq (bi * yi) Cp \<or> deq bi (Fin 0) \<or> (dne (bi * yi) (Fin 0) \<and> dne (bi * yi) Cp)"
  by (cases yi; cases bi) (auto simp add: dne_def inf_of_sign_def)

lemma scan_step_cases:
  "(SW (scan_step Cp ys b e s i) = SW s @ [i] \<and> SIN (scan_step Cp ys b e s i) = SIN s
      \<and> SC (scan_step Cp ys b e s i) = SC s) \<or>
   (SW (scan_step Cp ys b e s i) = SW s \<and> SIN (scan_step Cp ys b e s i) = SIN s @ [i]
      \<and> SC (scan_step Cp ys b e s i) = SC s) \<or>
   (SW (scan_step Cp ys b e s i) = SW s \<and> SIN (scan_step Cp ys b e s i) = SIN s
      \<and> SC (scan_step Cp ys b e s i) = SC s @ [i]) \<or>
   (SW (scan_step Cp ys b e s i) = SW s \<and> SIN (scan_step Cp ys b e s i) = SIN s
      \<and> SC (scan_step Cp ys b e s i) = SC s
      \<and> \<not> (deq (b ! i * ys ! i) Cp \<or> deq (b ! i) (Fin 0) \<or>
             (dne (b ! i * ys ! i) (Fin 0) \<and> dne (b ! i * ys ! i) Cp)))"
  by (simp add: scan_step_def Let_def)

lemma scan_distinct:
  "distinct (SW (foldl (scan_step Cp ys b e) scan_init [0..<n]) @
             SIN (foldl (scan_step Cp ys b e) scan_init [0..<n]) @
             SC (foldl (scan_step Cp ys b e) scan_init [0..<n])) \<and>
   set (SW (foldl (scan_step Cp ys b e) scan_init [0..<n]) @
             SIN (foldl (scan_step Cp ys b e) scan_init [0..<n]) @
             SC (foldl (scan_step Cp ys b e) scan_init [0..<n])) \<subseteq> {0..<n}"
proof (induction n)
  case 0
  show ?case by (simp add: scan_init_def)
next
  case (Suc n)
  let ?s = "foldl (scan_step Cp ys b e) scan_init [0..<n]"
  from Suc have n: "n \<notin> set (SW ?s @ SIN ?s @ SC ?s)" by auto
  from scan_step_cases[of Cp ys b e ?s n] Suc n show ?case
    by (elim disjE conjE) (auto simp add: less_Suc_eq)
qed

lemma scan_partition:
  assumes "\<forall>i<n. deq (ys ! i) (Fin 1) \<or> deq (ys ! i) (Fin (- 1))"
  shows "mset (SW (foldl (scan_step Cp ys b e) scan_init [0..<n]) @
             SIN (foldl (scan_step Cp ys b e) scan_init [0..<n]) @
             SC (foldl (scan_step Cp ys b e) scan_init [0..<n])) = mset [0..<n]"
  using assms
proof (induction n)
  case 0
  show ?case by (simp add: scan_init_def)
next
  case (Suc n)
  let ?s = "foldl (scan_step Cp ys b e) scan_init [0..<n]"
  from Suc have ih: "mset (SW ?s @ SIN ?s @ SC ?s) = mset [0..<n]" by simp
  from Suc.prems have "deq (ys ! n) (Fin 1) \<or> deq (ys ! n) (Fin (- 1))" by simp
  then have ex: "deq (b ! n * ys ! n) Cp \<or> deq (b ! n) (Fin 0) \<or>
      (dne (b ! n * ys ! n) (Fin 0) \<and> dne (b ! n * ys ! n) Cp)"
    by (rule box_cases)
  from scan_step_cases[of Cp ys b e ?s n] ex ih show ?case
    by (elim disjE conjE) simp_all
qed

lemma rpermute_loop_mset:
  "k < length a \<Longrightarrow> mset (fst (rpermute_loop rnd k a c)) = mset a"
proof (induction k arbitrary: a c)
  case 0
  show ?case by simp
next
  case (Suc k)
  let ?j = "rnd c mod (Suc k + 1)"
  have j: "?j < length a" using Suc.prems
    by (metis Suc_eq_plus1 le_less_trans less_Suc_eq_le mod_less_divisor zero_less_Suc Suc_lessD not_less_eq)
  have "mset (a[?j := a ! Suc k, Suc k := a ! ?j]) = mset a"
    using Suc.prems j by (simp add: mset_swap)
  moreover have "k < length (a[?j := a ! Suc k, Suc k := a ! ?j])" using Suc.prems by simp
  ultimately show ?case using Suc.IH[of "a[?j := a ! Suc k, Suc k := a ! ?j]" "Suc c"]
    by (simp add: Let_def)
qed

lemma rpermute_mset: "mset (fst (rpermute rnd n c)) = mset [0..<n]"
proof (cases n)
  case 0
  then show ?thesis by (simp add: rpermute_def)
next
  case (Suc m)
  then show ?thesis using rpermute_loop_mset[of m "[0..<n]" rnd c]
    by (simp add: rpermute_def)
qed

lemma select_fold:
  "foldl (select_step space SCs perm) (A, B) [0..<n] =
     (A @ map (\<lambda>i. SCs ! (perm ! i)) [0..<min n (nat space)],
      B @ map (\<lambda>i. SCs ! (perm ! i)) [min n (nat space)..<n])"
proof (induction n)
  case 0
  show ?case by simp
next
  case (Suc n)
  show ?case
  proof (cases "int n < space")
    case True
    then have "min (Suc n) (nat space) = Suc n" "min n (nat space) = n" by auto
    with True Suc show ?thesis by (simp add: select_step_def)
  next
    case False
    then have "min (Suc n) (nat space) = nat space" "min n (nat space) = nat space"
      "nat space \<le> n" by auto
    with False Suc show ?thesis by (simp add: select_step_def upt_Suc_append)
  qed
qed


section \<open>Evaluation on concrete inputs\<close>

lemma upt_num: "[i..<numeral n] = (if i < numeral n then i # [Suc i..<numeral n] else [])"
  by (rule upt_rec)

lemma replicate_num: "replicate (numeral n) x = x # replicate (numeral n - 1) x"
  by (simp add: numeral_eq_Suc)

lemmas dbl_eval = minus_double_def inf_of_sign_def inverse_double_def dne_def pow2_def Let_def
  upt_num replicate_num

lemmas scan_eval = scan_def scan_step_def scan_init_def epsilonThreshold_def

text \<open>
  Claim C10. After the scan of an outer iteration every sample is in exactly one of the
  three index lists \<^verbatim>\<open>SW\<close>, \<^verbatim>\<open>SIN\<close> and \<^verbatim>\<open>SC\<close>, provided every label is
  \<open>-1\<close> or \<open>1\<close>: the three tested cases are then exhaustive, the \<^verbatim>\<open>else if\<close> chain
  makes them exclusive, and every branch appends the sample to one list.
\<close>

theorem scan_partitions_samples:
  assumes "\<forall>i<n. deq (ys ! i) (Fin 1) \<or> deq (ys ! i) (Fin (- 1))"
  shows "mset (SW (scan Cp n ys bs es) @ SIN (scan Cp n ys bs es) @ SC (scan Cp n ys bs es))
           = mset [0..<n] \<and>
         distinct (SW (scan Cp n ys bs es) @ SIN (scan Cp n ys bs es) @ SC (scan Cp n ys bs es)) \<and>
         (\<forall>i<n. deq (bs ! i * ys ! i) Cp \<or> deq (bs ! i) (Fin 0) \<or>
                 (dne (bs ! i * ys ! i) (Fin 0) \<and> dne (bs ! i * ys ! i) Cp))"
proof (intro conjI allI impI)
  show "mset (SW (scan Cp n ys bs es) @ SIN (scan Cp n ys bs es) @ SC (scan Cp n ys bs es))
           = mset [0..<n]"
    unfolding scan_def using assms by (rule scan_partition)
  show "distinct (SW (scan Cp n ys bs es) @ SIN (scan Cp n ys bs es) @ SC (scan Cp n ys bs es))"
    unfolding scan_def using scan_distinct[of Cp ys bs es n] by blast
  fix i assume "i < n"
  with assms have "deq (ys ! i) (Fin 1) \<or> deq (ys ! i) (Fin (- 1))" by simp
  then show "deq (bs ! i * ys ! i) Cp \<or> deq (bs ! i) (Fin 0) \<or>
                 (dne (bs ! i * ys ! i) (Fin 0) \<and> dne (bs ! i * ys ! i) Cp)"
    by (rule box_cases)
qed

theorem scan_partitions_samples_witness:
  "SW (scan (Fin 1) 3 [Fin 1, Fin (- 1), Fin 1] [Fin 1, Fin 0, Fin (1 / 2)] [Fin 1, Fin (- 1), Fin 0]) = [1] \<and>
   SIN (scan (Fin 1) 3 [Fin 1, Fin (- 1), Fin 1] [Fin 1, Fin 0, Fin (1 / 2)] [Fin 1, Fin (- 1), Fin 0]) = [0] \<and>
   SC (scan (Fin 1) 3 [Fin 1, Fin (- 1), Fin 1] [Fin 1, Fin 0, Fin (1 / 2)] [Fin 1, Fin (- 1), Fin 0]) = [2] \<and>
   mset (SW (scan (Fin 1) 3 [Fin 1, Fin (- 1), Fin 1] [Fin 1, Fin 0, Fin (1 / 2)] [Fin 1, Fin (- 1), Fin 0]) @
         SIN (scan (Fin 1) 3 [Fin 1, Fin (- 1), Fin 1] [Fin 1, Fin 0, Fin (1 / 2)] [Fin 1, Fin (- 1), Fin 0]) @
         SC (scan (Fin 1) 3 [Fin 1, Fin (- 1), Fin 1] [Fin 1, Fin 0, Fin (1 / 2)] [Fin 1, Fin (- 1), Fin 0]))
     = mset [0..<3]"
proof -
  have lab: "\<forall>i<3. deq ([Fin 1, Fin (- 1), Fin 1] ! i) (Fin 1) \<or> deq ([Fin 1, Fin (- 1), Fin 1] ! i) (Fin (- 1))"
    by (simp add: numeral_3_eq_3 less_Suc_eq)
  have ev: "scan (Fin 1) 3 [Fin 1, Fin (- 1), Fin 1] [Fin 1, Fin 0, Fin (1 / 2)] [Fin 1, Fin (- 1), Fin 0]
      = \<lparr>SW = [1], SIN = [0], SC = [2], found00 = True, found01 = False,
     found02 = False, found10 = False, found11 = False, found12 = False\<rparr>"
    by (simp add: scan_eval dbl_eval)
  from scan_partitions_samples[OF lab, of "Fin 1" "[Fin 1, Fin 0, Fin (1 / 2)]" "[Fin 1, Fin (- 1), Fin 0]"]
  show ?thesis by (simp add: ev)
qed



text \<open>
  Claim C7. The seeds of the next working set are the samples that are the first of
  their violation category in the order of the scan, one for each category that has a
  violator. If the candidates are fewer than the remaining capacity, all of them are
  added; otherwise as many distinct candidates as the remaining capacity (none when the
  seeds already exceed it), taken along the random permutation, are added and the others
  go to the inactive set.
\<close>

theorem working_set_selection:
  assumes "sc = scan Cp n ys bs es"
    and "r = select_working_set rnd MaxWorkingSize sc c"
  shows "SW sc = filter (first_of_category (category Cp ys bs es)) [0..<n] \<and>
    (int (length (SC sc)) < MaxWorkingSize - int (length (SW sc)) \<longrightarrow>
       fst r = SW sc @ SC sc \<and> fst (snd r) = SIN sc) \<and>
    (\<not> int (length (SC sc)) < MaxWorkingSize - int (length (SW sc)) \<longrightarrow>
       (\<exists>added deferred.
          fst r = SW sc @ added \<and> fst (snd r) = SIN sc @ deferred \<and>
          length added = nat (MaxWorkingSize - int (length (SW sc))) \<and>
          mset (added @ deferred) = mset (SC sc) \<and> distinct (added @ deferred)))"
proof (intro conjI impI)
  show "SW sc = filter (first_of_category (category Cp ys bs es)) [0..<n]"
    unfolding assms(1) scan_def by (rule scan_SW)
next
  assume "int (length (SC sc)) < MaxWorkingSize - int (length (SW sc))"
  then show "fst r = SW sc @ SC sc" "fst (snd r) = SIN sc"
    by (simp_all add: assms(2) select_working_set_def Let_def)
next
  assume full: "\<not> int (length (SC sc)) < MaxWorkingSize - int (length (SW sc))"
  let ?perm = "fst (rpermute rnd (length (SC sc)) c)"
  let ?space = "MaxWorkingSize - int (length (SW sc))"
  let ?m = "min (length (SC sc)) (nat ?space)"
  let ?added = "map (\<lambda>i. SC sc ! (?perm ! i)) [0..<?m]"
  let ?deferred = "map (\<lambda>i. SC sc ! (?perm ! i)) [?m..<length (SC sc)]"
  have perm: "mset ?perm = mset [0..<length (SC sc)]" by (rule rpermute_mset)
  have len: "length ?perm = length (SC sc)"
    using arg_cong[OF perm, of size] by simp
  have m: "?m = nat ?space" using full by auto
  have r1: "fst r = SW sc @ ?added" and r2: "fst (snd r) = SIN sc @ ?deferred"
    using full by (simp_all add: assms(2) select_working_set_def Let_def split_def select_fold)
  have split_upt: "[0..<length (SC sc)] = [0..<?m] @ [?m..<length (SC sc)]"
    using upt_add_eq_append[of 0 ?m "length (SC sc) - ?m"] by simp
  have "?added @ ?deferred = map (\<lambda>i. SC sc ! (?perm ! i)) ([0..<?m] @ [?m..<length (SC sc)])"
    by (simp only: map_append)
  also have "\<dots> = map (\<lambda>i. SC sc ! (?perm ! i)) [0..<length ?perm]"
    by (simp only: split_upt[symmetric] len)
  also have "\<dots> = map (\<lambda>k. SC sc ! k) (map (\<lambda>i. ?perm ! i) [0..<length ?perm])"
    by (simp only: map_map o_def)
  also have "\<dots> = map (\<lambda>k. SC sc ! k) ?perm"
    by (simp only: map_nth)
  finally have ad: "?added @ ?deferred = map (\<lambda>k. SC sc ! k) ?perm" .
  have "mset (map (\<lambda>k. SC sc ! k) ?perm) = image_mset (\<lambda>k. SC sc ! k) (mset ?perm)"
    by simp
  also have "\<dots> = image_mset (\<lambda>k. SC sc ! k) (mset [0..<length (SC sc)])"
    by (simp only: perm)
  also have "\<dots> = mset (map (\<lambda>k. SC sc ! k) [0..<length (SC sc)])" by simp
  also have "\<dots> = mset (SC sc)" by (simp only: map_nth)
  finally have ms: "mset (?added @ ?deferred) = mset (SC sc)" by (simp only: ad)
  have "distinct (SC sc)"
    using scan_distinct[of Cp ys bs es n] by (simp add: assms(1) scan_def)
  then have dist: "distinct (?added @ ?deferred)"
    using ms mset_eq_imp_distinct_iff[of "?added @ ?deferred" "SC sc"] by blast
  have la: "length ?added = nat ?space" using m by simp
  show "\<exists>added deferred.
          fst r = SW sc @ added \<and> fst (snd r) = SIN sc @ deferred \<and>
          length added = nat (MaxWorkingSize - int (length (SW sc))) \<and>
          mset (added @ deferred) = mset (SC sc) \<and> distinct (added @ deferred)"
    using r1 r2 la ms dist by blast
qed

theorem working_set_selection_witness:
  "SW (scan (Fin 1) 4 sel_ys sel_bs sel_es) = [0, 1] \<and>
   SC (scan (Fin 1) 4 sel_ys sel_bs sel_es) = [2, 3] \<and>
   filter (first_of_category (category (Fin 1) sel_ys sel_bs sel_es)) [0..<4] = [0, 1] \<and>
   fst (select_working_set (\<lambda>c. 0) 3 (scan (Fin 1) 4 sel_ys sel_bs sel_es) 0) = [0, 1, 3] \<and>
   fst (snd (select_working_set (\<lambda>c. 0) 3 (scan (Fin 1) 4 sel_ys sel_bs sel_es) 0)) = [2] \<and>
   (\<exists>added deferred.
      fst (select_working_set (\<lambda>c. 0) 3 (scan (Fin 1) 4 sel_ys sel_bs sel_es) 0) = [0, 1] @ added \<and>
      length added = 1 \<and> mset (added @ deferred) = mset [2, 3])"
proof -
  have ev: "scan (Fin 1) 4 sel_ys sel_bs sel_es
      = \<lparr>SW = [0, 1], SIN = [], SC = [2, 3], found00 = True, found01 = False,
     found02 = False, found10 = True, found11 = False, found12 = False\<rparr>"
    by (simp add: scan_eval dbl_eval sel_ys_def sel_bs_def sel_es_def)
  have sel: "select_working_set (\<lambda>c. 0) 3 (scan (Fin 1) 4 sel_ys sel_bs sel_es) 0 = ([0, 1, 3], [2], 1)"
    by (simp add: ev select_working_set_def select_step_def rpermute_def dbl_eval)
  note th = working_set_selection[where Cp = "Fin 1" and n = 4 and ys = sel_ys and bs = sel_bs
      and es = sel_es and rnd = "\<lambda>c. 0" and MaxWorkingSize = 3 and c = 0, OF refl refl]
  from th have seeds: "filter (first_of_category (category (Fin 1) sel_ys sel_bs sel_es)) [0..<4] = [0, 1]"
    by (simp only: ev scan_state.simps)
  have ex: "\<exists>added deferred.
      fst (select_working_set (\<lambda>c. 0) 3 (scan (Fin 1) 4 sel_ys sel_bs sel_es) 0) = [0, 1] @ added \<and>
      length added = 1 \<and> mset (added @ deferred) = mset [2, 3]"
    by (rule exI[of _ "[3]"], rule exI[of _ "[2]"]) (simp add: sel)
  have c1: "SW (scan (Fin 1) 4 sel_ys sel_bs sel_es) = [0, 1]" by (simp add: ev)
  have c2: "SC (scan (Fin 1) 4 sel_ys sel_bs sel_es) = [2, 3]" by (simp add: ev)
  have c4: "fst (select_working_set (\<lambda>c. 0) 3 (scan (Fin 1) 4 sel_ys sel_bs sel_es) 0) = [0, 1, 3]"
    by (simp add: sel)
  have c5: "fst (snd (select_working_set (\<lambda>c. 0) 3 (scan (Fin 1) 4 sel_ys sel_bs sel_es) 0)) = [2]"
    by (simp add: sel)
  show ?thesis using c1 c2 seeds c4 c5 ex by blast
qed


section \<open>The inner solver\<close>

subsection \<open>What each phase of an inner iteration leaves unchanged\<close>

lemma linear_system_fields:
  "a_arr (snd (linear_system solve K dataset props GINv s)) = a_arr s"
  "e_arr (snd (linear_system solve K dataset props GINv s)) = e_arr s"
  "beta (snd (linear_system solve K dataset props GINv s)) = beta s"
  "betaBest (snd (linear_system solve K dataset props GINv s)) = betaBest s"
  "bestDW (snd (linear_system solve K dataset props GINv s)) = bestDW s"
  "itersSinceBestDW (snd (linear_system solve K dataset props GINv s)) = itersSinceBestDW s"
  "S1comp (snd (linear_system solve K dataset props GINv s)) = S1comp s"
  "omp_threads (snd (linear_system solve K dataset props GINv s)) = Threads props"
  by (simp_all add: linear_system_def Let_def)

lemma update_weights_fields:
  "a_arr (update_weights dataset props bx s) = a_arr s"
  "e_arr (update_weights dataset props bx s) = e_arr s"
  "beta (update_weights dataset props bx s) = beta s"
  "betaBest (update_weights dataset props bx s) = betaBest s"
  "bestDW (update_weights dataset props bx s) = bestDW s"
  "itersSinceBestDW (update_weights dataset props bx s) = itersSinceBestDW s"
  "omp_threads (update_weights dataset props bx s) = omp_threads s"
  by (simp_all add: update_weights_def Let_def)

lemma update_error_fields:
  "a_arr (update_error K dataset s) = a_arr s"
  "betaNew (update_error K dataset s) = betaNew s"
  "betaBest (update_error K dataset s) = betaBest s"
  "deltaW (update_error K dataset s) = deltaW s"
  "normW (update_error K dataset s) = normW s"
  "bestDW (update_error K dataset s) = bestDW s"
  "itersSinceBestDW (update_error K dataset s) = itersSinceBestDW s"
  "omp_threads (update_error K dataset s) = omp_threads s"
  by (simp_all add: update_error_def)

lemma track_best_fields:
  "a_arr (track_best s) = a_arr s"
  "e_arr (track_best s) = e_arr s"
  "betaNew (track_best s) = betaNew s"
  "deltaW (track_best s) = deltaW s"
  "normW (track_best s) = normW s"
  "omp_threads (track_best s) = omp_threads s"
  by (simp_all add: track_best_def)

lemma regroup_fold_fields:
  "e_arr (foldl (regroup_step Cp ys) s xs) = e_arr s"
  "betaNew (foldl (regroup_step Cp ys) s xs) = betaNew s"
  "betaBest (foldl (regroup_step Cp ys) s xs) = betaBest s"
  "deltaW (foldl (regroup_step Cp ys) s xs) = deltaW s"
  "normW (foldl (regroup_step Cp ys) s xs) = normW s"
  "bestDW (foldl (regroup_step Cp ys) s xs) = bestDW s"
  "itersSinceBestDW (foldl (regroup_step Cp ys) s xs) = itersSinceBestDW s"
  "omp_threads (foldl (regroup_step Cp ys) s xs) = omp_threads s"
  "length (a_arr (foldl (regroup_step Cp ys) s xs)) = length (a_arr s)"
  by (induction xs arbitrary: s; simp add: regroup_step_def Let_def)+

lemma regroup_fields:
  "e_arr (regroup dataset props s) = e_arr s"
  "betaNew (regroup dataset props s) = betaNew s"
  "betaBest (regroup dataset props s) = betaBest s"
  "deltaW (regroup dataset props s) = deltaW s"
  "normW (regroup dataset props s) = normW s"
  "bestDW (regroup dataset props s) = bestDW s"
  "itersSinceBestDW (regroup dataset props s) = itersSinceBestDW s"
  "omp_threads (regroup dataset props s) = omp_threads s"
  "a_arr (regroup dataset props s) =
     a_arr (foldl (regroup_step (prop_C props) (ds_y dataset)) s [0..<ds_l dataset])"
  by (simp_all add: regroup_def Let_def regroup_fold_fields)

lemma update_H13_fields:
  "a_arr (update_H13 K dataset props s) = a_arr s"
  "e_arr (update_H13 K dataset props s) = e_arr s"
  "betaNew (update_H13 K dataset props s) = betaNew s"
  "betaBest (update_H13 K dataset props s) = betaBest s"
  "deltaW (update_H13 K dataset props s) = deltaW s"
  "normW (update_H13 K dataset props s) = normW s"
  "bestDW (update_H13 K dataset props s) = bestDW s"
  "itersSinceBestDW (update_H13 K dataset props s) = itersSinceBestDW s"
  "omp_threads (update_H13 K dataset props s) = omp_threads s"
  by (simp_all add: update_H13_def Let_def)

lemmas phase_fields = linear_system_fields update_weights_fields update_error_fields
  track_best_fields regroup_fields update_H13_fields



subsection \<open>The thread count\<close>

lemma pow2_floor_log2_pos:
  assumes "1 \<le> n"
  shows "pow2_floor_log2 n = 2 ^ (floorlog 2 (nat n) - 1)"
proof -
  have n: "0 < (of_int n :: real)" using assms by simp
  have k: "0 \<le> \<lfloor>log 2 (of_int n)\<rfloor>" using assms by (simp add: zero_le_log_cancel_iff)
  have "c_log (Fin (of_int n)) / c_log (Fin 2) = Fin (log 2 (of_int n))"
    using n by (simp add: log_def)
  then have "pow2_floor_log2 n = double_to_int (Fin (2 powr (of_int \<lfloor>log 2 (of_int n)\<rfloor>)))"
    by (simp add: pow2_floor_log2_def)
  also have "2 powr (of_int \<lfloor>log 2 (of_int n)\<rfloor>) = (2::real) ^ nat \<lfloor>log 2 (of_int n)\<rfloor>"
    using k by (simp add: powr_real_of_int)
  also have "double_to_int (Fin ((2::real) ^ nat \<lfloor>log 2 (of_int n)\<rfloor>)) = 2 ^ nat \<lfloor>log 2 (of_int n)\<rfloor>"
  proof -
    have "(2::real) ^ nat \<lfloor>log 2 (of_int n)\<rfloor> = of_int (2 ^ nat \<lfloor>log 2 (of_int n)\<rfloor>)" by simp
    then show ?thesis by (simp del: of_int_power of_int_numeral)
  qed
  also have "nat \<lfloor>log 2 (of_int n)\<rfloor> = floorlog 2 (nat n) - 1"
    using assms by (simp add: floorlog_def)
  finally show ?thesis .
qed

lemma pow2_floor_log2_zero: "pow2_floor_log2 0 = 0"
  by (simp add: pow2_floor_log2_def inf_of_sign_def)

lemma pow2_floor_log2_neg: "n < 0 \<Longrightarrow> pow2_floor_log2 n = - 2147483648"
  by (simp add: pow2_floor_log2_def)

lemma pow2_floor_log2_code:
  "pow2_floor_log2 n =
     (if 1 \<le> n then 2 ^ (floorlog 2 (nat n) - 1) else if n = 0 then 0 else - 2147483648)"
  using pow2_floor_log2_pos[of n] pow2_floor_log2_zero pow2_floor_log2_neg[of n]
  by (cases "1 \<le> n"; cases "n = 0") auto

lemma pow2_floor_log2_largest:
  assumes "1 \<le> n"
  shows "largest_pow2 (pow2_floor_log2 n) n"
proof -
  have b: "2 ^ (floorlog 2 (nat n) - 1) \<le> nat n \<and> nat n < 2 ^ floorlog 2 (nat n)"
    using assms floorlog_bounds[of "nat n" 2] by simp
  have pos: "0 < floorlog 2 (nat n)" using assms by (simp add: floorlog_def)
  then have "(2::nat) ^ floorlog 2 (nat n) = 2 * 2 ^ (floorlog 2 (nat n) - 1)"
    by (cases "floorlog 2 (nat n)") simp_all
  with b have b2: "nat n < 2 * 2 ^ (floorlog 2 (nat n) - 1)" by simp
  have "int (2 ^ (floorlog 2 (nat n) - 1)) \<le> int (nat n)"
    using b by (simp only: of_nat_le_iff)
  then have le: "(2::int) ^ (floorlog 2 (nat n) - 1) \<le> n"
    using assms by simp
  have "int (nat n) < int (2 * 2 ^ (floorlog 2 (nat n) - 1))"
    using b2 by (simp only: of_nat_less_iff)
  then have lt: "n < 2 * (2::int) ^ (floorlog 2 (nat n) - 1)"
    using assms by simp
  show ?thesis
    unfolding largest_pow2_def pow2_floor_log2_pos[OF assms] using le lt by blast
qed

lemma thLS_of_spec:
  assumes "1 \<le> t"
  shows "(n = 0 \<longrightarrow> thLS_of t n = 1) \<and>
         (0 < n \<longrightarrow> largest_pow2 (thLS_of t n) (min t (int n)))"
proof (intro conjI impI)
  have t1: "largest_pow2 (pow2_floor_log2 t) t" using assms by (rule pow2_floor_log2_largest)
  then have t1pos: "1 \<le> pow2_floor_log2 t" by (auto simp add: largest_pow2_def)
  { assume "n = 0"
    then show "thLS_of t n = 1" using t1pos
      by (simp add: thLS_of_def Let_def pow2_floor_log2_zero) }
  { assume n: "0 < n"
    then have n1: "largest_pow2 (pow2_floor_log2 (int n)) (int n)"
      by (intro pow2_floor_log2_largest) simp
    then have n1pos: "1 \<le> pow2_floor_log2 (int n)" by (auto simp add: largest_pow2_def)
    show "largest_pow2 (thLS_of t n) (min t (int n))"
    proof (cases "int n < pow2_floor_log2 t")
      case True
      then have "int n \<le> t" using t1 by (auto simp add: largest_pow2_def)
      then have "min t (int n) = int n" by simp
      moreover have "thLS_of t n = pow2_floor_log2 (int n)"
        using True n1pos by (simp add: thLS_of_def Let_def)
      ultimately show ?thesis using n1 by simp
    next
      case False
      then have th: "thLS_of t n = pow2_floor_log2 t"
        using t1pos by (simp add: thLS_of_def Let_def)
      from False t1 show ?thesis
        unfolding th largest_pow2_def by (auto simp add: min_def)
    qed }
qed


lemma omp_irwls_body: "omp_threads (irwls_body solve K dataset props GINv s) = Threads props"
  by (simp add: irwls_body_def Let_def phase_fields)

text \<open>
  Claim C8. In every inner iteration the linear system is solved with the thread count
  \<^verbatim>\<open>thLS\<close>: for a thread budget of at least one it is the largest power of two that
  exceeds neither the budget nor the size \<^verbatim>\<open>nS1\<close> of the free set, and one when the
  free set is empty; the OpenMP thread count is the budget again after the solve and at
  the end of the iteration.
\<close>

theorem solve_thread_count:
  assumes "1 \<le> Threads props"
  shows "fst (linear_system solve K dataset props GINv s) =
           solve (thLS_of (Threads props) (length (S1comp s))) (length (S1comp s) + 1)
             (build_H K (ds_y dataset) s) (build_et (ds_l dataset) GINv s) \<and>
         (length (S1comp s) = 0 \<longrightarrow> thLS_of (Threads props) (length (S1comp s)) = 1) \<and>
         (0 < length (S1comp s) \<longrightarrow>
            largest_pow2 (thLS_of (Threads props) (length (S1comp s)))
              (min (Threads props) (int (length (S1comp s))))) \<and>
         omp_threads (snd (linear_system solve K dataset props GINv s)) = Threads props \<and>
         omp_threads (irwls_body solve K dataset props GINv s) = Threads props"
  using thLS_of_spec[OF assms, of "length (S1comp s)"]
  by (simp add: linear_system_def Let_def omp_irwls_body)

theorem solve_thread_count_witness:
  "thLS_of 4 3 = 2 \<and> largest_pow2 (thLS_of 4 3) 3 \<and>
   omp_threads (irwls_body gauss_solve (linear_kernel [1, 2, 3]) thr_ds thr_props
       [Fin 0, Fin 0, Fin 0, Fin 0] thr_state) = 4"
proof -
  have t: "thLS_of 4 3 = 2"
    by (simp add: thLS_of_def Let_def pow2_floor_log2_code compute_floorlog)
  have p: "1 \<le> Threads thr_props" by (simp add: thr_props_def)
  note th = solve_thread_count[OF p, where s = thr_state and solve = gauss_solve
      and K = "linear_kernel [1, 2, 3]" and dataset = thr_ds and GINv = "[Fin 0, Fin 0, Fin 0, Fin 0]"]
  have l: "length (S1comp thr_state) = 3"
    by (simp add: thr_state_def irwls_start_def irwls_init_step_def a_initial_def thr_ds_def
        thr_props_def dbl_eval cong: let_weak_cong)
  from th have "largest_pow2 (thLS_of 4 3) 3"
    by (simp add: l thr_props_def)
  moreover from th have "omp_threads (irwls_body gauss_solve (linear_kernel [1, 2, 3]) thr_ds thr_props
       [Fin 0, Fin 0, Fin 0, Fin 0] thr_state) = 4"
    by (simp add: thr_props_def)
  ultimately show ?thesis using t by blast
qed


subsection \<open>The weights a\<close>

lemma irwls_init_fold_fields:
  "e_arr (foldl (irwls_init_step Cp ys) s xs) = e_arr s"
  "length (a_arr (foldl (irwls_init_step Cp ys) s xs)) = length (a_arr s)"
  by (induction xs arbitrary: s; simp add: irwls_init_step_def Let_def)+

lemma irwls_init_step_a:
  "a_arr (irwls_init_step Cp ys s i) = (a_arr s)[i := a_initial Cp (ys ! i) (e_arr s ! i)]"
  by (simp add: irwls_init_step_def Let_def)

lemma irwls_init_fold_a:
  "n \<le> length (a_arr s) \<Longrightarrow> i < n \<Longrightarrow>
   a_arr (foldl (irwls_init_step Cp ys) s [0..<n]) ! i = a_initial Cp (ys ! i) (e_arr s ! i)"
proof (induction n)
  case 0
  then show ?case by simp
next
  case (Suc n)
  show ?case
  proof (cases "i = n")
    case True
    then show ?thesis using Suc.prems
      by (simp add: irwls_init_step_a irwls_init_fold_fields)
  next
    case False
    then have "i < n" using Suc.prems by simp
    then show ?thesis using Suc False
      by (simp add: irwls_init_step_a irwls_init_fold_fields)
  qed
qed

lemma regroup_step_a:
  "a_arr (regroup_step Cp ys s i) = (a_arr s)[i := a_regroup Cp (ys ! i) (e_arr s ! i)]"
  by (simp add: regroup_step_def Let_def)

lemma regroup_fold_a:
  "n \<le> length (a_arr s) \<Longrightarrow> i < n \<Longrightarrow>
   a_arr (foldl (regroup_step Cp ys) s [0..<n]) ! i = a_regroup Cp (ys ! i) (e_arr s ! i)"
proof (induction n)
  case 0
  then show ?case by simp
next
  case (Suc n)
  show ?case
  proof (cases "i = n")
    case True
    then show ?thesis using Suc.prems
      by (simp add: regroup_step_a regroup_fold_fields)
  next
    case False
    then have "i < n" using Suc.prems by simp
    then show ?thesis using Suc False
      by (simp add: regroup_step_a regroup_fold_fields)
  qed
qed

lemma a_irwls_body:
  assumes "length (a_arr s) = ds_l dataset" and "i < ds_l dataset"
  shows "a_arr (irwls_body solve K dataset props GINv s) ! i =
     a_regroup (prop_C props) (ds_y dataset ! i) (e_arr (irwls_body solve K dataset props GINv s) ! i)"
proof -
  let ?s4 = "track_best (update_error K dataset (update_weights dataset props
      (fst (linear_system solve K dataset props GINv (s\<lparr>iter := iter s + 1\<rparr>)))
      (snd (linear_system solve K dataset props GINv (s\<lparr>iter := iter s + 1\<rparr>)))))"
  have body: "irwls_body solve K dataset props GINv s = update_H13 K dataset props (regroup dataset props ?s4)"
    by (simp add: irwls_body_def Let_def)
  have len: "length (a_arr ?s4) = ds_l dataset"
    using assms(1) by (simp add: phase_fields)
  have "a_arr (irwls_body solve K dataset props GINv s) ! i =
      a_arr (foldl (regroup_step (prop_C props) (ds_y dataset)) ?s4 [0..<ds_l dataset]) ! i"
    by (simp only: body update_H13_fields regroup_fields)
  also have "\<dots> = a_regroup (prop_C props) (ds_y dataset ! i) (e_arr ?s4 ! i)"
    using len assms(2) by (intro regroup_fold_a) simp_all
  also have "e_arr ?s4 = e_arr (irwls_body solve K dataset props GINv s)"
    by (simp only: body update_H13_fields regroup_fields)
  finally show ?thesis .
qed

text \<open>
  What the two loops of \<^verbatim>\<open>subIRWLS\<close> compute: the initialization takes the quotient
  for every \<open>e\<^sub>i y\<^sub>i \<ge> 0\<close>; the re-partitioning at the end of an iteration has the
  cap \<open>10\<^sup>4 C\<close> for \<open>0 \<le> e\<^sub>i y\<^sub>i < 10\<^sup>-\<^sup>4\<close>.
\<close>

lemma weights_of_both_loops:
  assumes "i < ds_l dataset" and "length (a_arr s) = ds_l dataset"
  shows "a_arr (irwls_start dataset props e0 beta0) ! i =
           (if e0 ! i * ds_y dataset ! i < Fin 0 then Fin 0
            else Fin 1 * ds_y dataset ! i * prop_C props / e0 ! i) \<and>
         a_arr (irwls_body solve K dataset props GINv s) ! i =
           (if e_arr (irwls_body solve K dataset props GINv s) ! i * ds_y dataset ! i < Fin 0
              then Fin 0
            else if e_arr (irwls_body solve K dataset props GINv s) ! i * ds_y dataset ! i
                      < Fin (1 / 10000)
              then prop_C props * Fin 10000
            else Fin 1 * ds_y dataset ! i * prop_C props
                   / e_arr (irwls_body solve K dataset props GINv s) ! i)"
proof
  show "a_arr (irwls_start dataset props e0 beta0) ! i =
           (if e0 ! i * ds_y dataset ! i < Fin 0 then Fin 0
            else Fin 1 * ds_y dataset ! i * prop_C props / e0 ! i)"
    using assms(1) unfolding irwls_start_def
    by (subst irwls_init_fold_a) (simp_all add: a_initial_def)
  show "a_arr (irwls_body solve K dataset props GINv s) ! i =
           (if e_arr (irwls_body solve K dataset props GINv s) ! i * ds_y dataset ! i < Fin 0
              then Fin 0
            else if e_arr (irwls_body solve K dataset props GINv s) ! i * ds_y dataset ! i
                      < Fin (1 / 10000)
              then prop_C props * Fin 10000
            else Fin 1 * ds_y dataset ! i * prop_C props
                   / e_arr (irwls_body solve K dataset props GINv s) ! i)"
    using a_irwls_body[OF assms(2) assms(1)] by (simp add: a_regroup_def)
qed


subsection \<open>The inner solver on concrete inputs\<close>

lemmas irwls_eval = irwls_body_def linear_system_def build_H_def H_row_def build_et_def
  gauss_solve_def aug_rows_def eliminate_def gauss_step_def find_pivot_def
  update_weights_def new_weights_def minmax_step_def
  update_error_def new_error_def track_best_def regroup_def regroup_step_def a_regroup_def
  group_regroup_def update_H13_def new_G13_def irwls_cond_def
  irwls_start_def irwls_init_step_def a_initial_def subIRWLS_def linear_kernel_def

lemma thLS_one: "thLS_of 1 n = 1"
  by (simp add: thLS_of_def pow2_floor_log2_code Let_def floorlog_def)

lemma cap_start:
  "irwls_start cap_ds cap_props cap_e cap_beta =
   \<lparr>a_arr = [Fin 20000], elementGroup = [1], S1comp = [0], S3comp = [], G13 = [Fin 0, Fin 0],
    e_arr = [Fin (1 / 20000)], beta = [Fin (1 / 2), Fin 0], betaNew = [Fin 0, Fin 0],
    betaBest = [Fin 0, Fin 0], maxbeta = Fin 0, minbeta = Fin 0, iter = 0,
    deltaW = Fin 1000000000, normW = Fin 1, itersSinceBestDW = 0, bestDW = Fin 1000000000,
    omp_threads = 1\<rparr>"
  by (simp add: irwls_eval cap_ds_def cap_props_def cap_e_def cap_beta_def dbl_eval
      cong: let_weak_cong)

lemma cap_regroup:
  "a_arr (regroup cap_ds cap_props (irwls_start cap_ds cap_props cap_e cap_beta)) = [Fin 10000]"
  unfolding cap_start
  by (simp add: regroup_def regroup_step_def a_regroup_def group_regroup_def cap_ds_def
      cap_props_def dbl_eval cong: let_weak_cong)

lemma cap_start_zero:
  "a_arr (irwls_start cap_ds cap_props [Fin 0] cap_beta) = [PInf]"
  by (simp add: irwls_eval cap_ds_def cap_props_def cap_beta_def dbl_eval cong: let_weak_cong)

text \<open>
  Claim C6. The claim gives the weight \<open>a\<^sub>i\<close> the cap \<open>10\<^sup>4 C\<close> for \<open>e\<^sub>i y\<^sub>i\<close>
  within \<open>10\<^sup>-\<^sup>4\<close> of zero, at the initial weighting and at every re-partitioning.
  The initialization loop has no cap: entered with \<open>C = 1\<close>, \<open>y\<^sub>i = 1\<close> and
  \<open>e\<^sub>i = 1 / 20000\<close> it sets \<open>a\<^sub>i = 20000\<close>, where the re-partitioning loop, run on
  the same state, sets the cap \<open>10000\<close> that the claim states; entered with
  \<open>e\<^sub>i = 0\<close> it divides by zero and the weight is infinite.
\<close>

theorem initial_weight_misses_cap:
  "a_arr (irwls_start cap_ds cap_props cap_e cap_beta) ! 0 = Fin 20000 \<and>
   a_arr (regroup cap_ds cap_props (irwls_start cap_ds cap_props cap_e cap_beta)) ! 0 = Fin 10000 \<and>
   a_claimed (prop_C cap_props) (ds_y cap_ds ! 0) (cap_e ! 0) = Fin 10000 \<and>
   a_arr (irwls_start cap_ds cap_props [Fin 0] cap_beta) ! 0 = PInf"
proof -
  have c1: "a_arr (irwls_start cap_ds cap_props cap_e cap_beta) ! 0 = Fin 20000"
    unfolding cap_start by simp
  have c2: "a_arr (regroup cap_ds cap_props (irwls_start cap_ds cap_props cap_e cap_beta)) ! 0
      = Fin 10000"
    unfolding cap_regroup by simp
  have c3: "a_claimed (prop_C cap_props) (ds_y cap_ds ! 0) (cap_e ! 0) = Fin 10000"
    by (simp add: a_claimed_def cap_props_def cap_ds_def cap_e_def)
  have c4: "a_arr (irwls_start cap_ds cap_props [Fin 0] cap_beta) ! 0 = PInf"
    unfolding cap_start_zero by simp
  from c1 c2 c3 c4 show ?thesis by blast
qed

subsection \<open>The loop as an iteration of its body\<close>















section \<open>The size of the working set\<close>

text \<open>
  The training loop on concrete inputs: the definitions of one iteration, evaluated together
  with those of the inner solver.
\<close>

lemmas train_eval = train_body_def train_to_check_def train_prepare_def new_GIN_def
  call_subIRWLS_def merge_weights_def train_new_error_def train_update_error_def
  train_deltaW_def train_normW_def convergence_check_def next_working_set_def
  scan_def scan_step_def scan_init_def epsilonThreshold_def select_working_set_def
  select_step_def rpermute_def train_start_def init_sets_def init_step_def

text \<open>
  Claim C5. The claim says that no working set has more than \<^verbatim>\<open>MaxWorkingSize\<close> samples.
  The initialization loop (line 416) and the fill from the candidates (lines 626 to 645)
  respect the maximum, but the scan (lines 542 to 617) puts the first sample of each of the
  six categories into \<^verbatim>\<open>SW\<close> without looking at it. Eleven samples with one feature each,
  the labels of \<open>tight_ds\<close>, the linear kernel, \<open>C = 1\<close> and \<^verbatim>\<open>MaxWorkingSize = 2\<close>: the
  initial working set is \<open>[0, 10]\<close>, and the working set after the first iteration is
  \<open>[0, 1, 2, 10]\<close>, four samples in a buffer of two.
\<close>

theorem seeds_exceed_MaxWorkingSize:
  "MaxSize tight_props = 2 \<and>
   t_SW (train_start tight_ds tight_props) = [0, 10] \<and>
   t_SW (train_body gauss_solve (linear_kernel tight_xs) (\<lambda>c. 0) tight_ds tight_props
          (train_start tight_ds tight_props)) = [0, 1, 2, 10]"
  by (simp add: train_eval irwls_eval irwls_loop.simps thLS_one tight_ds_def tight_props_def
      tight_xs_def dbl_eval cong: let_weak_cong)

end
